theory Spec2Isabelle
  imports Complex_Main "HOL-Library.Sublist"
begin

section \<open>JavaScript values\<close>

text \<open>
  A JavaScript number. Only comparisons, \<open>Math.max\<close> and \<open>Math.min\<close> are applied to
  numbers in the code modelled here; these are exact on binary64 values, so a finite
  number is carried as a real. \<open>NaN\<close> and the two infinities are kept apart, because
  every comparison with \<open>NaN\<close> is false and \<open>JSON.parse\<close> yields \<open>Infinity\<close> for a
  literal such as \<open>1e999\<close>. The two zeros are not told apart.
\<close>

datatype jsnum = NaN | NegInf | Fin real | PosInf

fun js_lt :: "jsnum \<Rightarrow> jsnum \<Rightarrow> bool" where
  "js_lt NaN b = False"
| "js_lt a NaN = False"
| "js_lt NegInf NegInf = False"
| "js_lt NegInf b = True"
| "js_lt PosInf b = False"
| "js_lt (Fin x) NegInf = False"
| "js_lt (Fin x) PosInf = True"
| "js_lt (Fin x) (Fin y) = (x < y)"

definition js_gt :: "jsnum \<Rightarrow> jsnum \<Rightarrow> bool" where
  "js_gt a b = js_lt b a"

definition Math_max :: "jsnum \<Rightarrow> jsnum \<Rightarrow> jsnum" where
  "Math_max a b = (if a = NaN \<or> b = NaN then NaN else if js_lt a b then b else a)"

definition Math_min :: "jsnum \<Rightarrow> jsnum \<Rightarrow> jsnum" where
  "Math_min a b = (if a = NaN \<or> b = NaN then NaN else if js_lt b a then b else a)"

text \<open>
  Strings are byte strings: the UTF-8 text of the JavaScript string. The operations
  below compare with ASCII literals only, for which bytes and UTF-16 code units agree.
\<close>

definition startsWith :: "string \<Rightarrow> string \<Rightarrow> bool" where
  "startsWith s t = prefix t s"

definition endsWith :: "string \<Rightarrow> string \<Rightarrow> bool" where
  "endsWith s t = suffix t s"

definition lower_char :: "char \<Rightarrow> char" where
  "lower_char c =
     (case map_of (zip ''ABCDEFGHIJKLMNOPQRSTUVWXYZ'' ''abcdefghijklmnopqrstuvwxyz'') c of
        Some d \<Rightarrow> d
      | None \<Rightarrow> c)"

text \<open>
  \<open>String.prototype.toLowerCase\<close> on the ASCII letters. JavaScript also lowers letters
  beyond ASCII; the result is only ever compared with the four ASCII skip labels, and no
  character beyond ASCII is lowered to a letter that occurs in them.
\<close>

definition toLowerCase :: "string \<Rightarrow> string" where
  "toLowerCase s = map lower_char s"

subsection \<open>The regular expressions of the safety gate\<close>

text \<open>
  The seven patterns of \<open>isAutoFixSafe\<close> are built from three kinds of atoms: a literal
  character, \<open>\s+\<close> and an optional character of a set (\<open>[_-]?\<close>). All seven carry the
  flag \<open>i\<close> and none carries \<open>g\<close>, so a literal matches in either case and \<open>test\<close>
  keeps no state between calls.
\<close>

datatype atom = Chr char | Spaces1 | Opt string

text \<open>The characters \<open>\s\<close> matches, in UTF-8.\<close>

definition js_whitespace :: "string list" where
  "js_whitespace =
     [ [CHR 0x09], [CHR 0x0A], [CHR 0x0B], [CHR 0x0C], [CHR 0x0D], [CHR 0x20],
       [CHR 0xC2, CHR 0xA0], [CHR 0xE1, CHR 0x9A, CHR 0x80],
       [CHR 0xE2, CHR 0x80, CHR 0x80], [CHR 0xE2, CHR 0x80, CHR 0x81],
       [CHR 0xE2, CHR 0x80, CHR 0x82], [CHR 0xE2, CHR 0x80, CHR 0x83],
       [CHR 0xE2, CHR 0x80, CHR 0x84], [CHR 0xE2, CHR 0x80, CHR 0x85],
       [CHR 0xE2, CHR 0x80, CHR 0x86], [CHR 0xE2, CHR 0x80, CHR 0x87],
       [CHR 0xE2, CHR 0x80, CHR 0x88], [CHR 0xE2, CHR 0x80, CHR 0x89],
       [CHR 0xE2, CHR 0x80, CHR 0x8A], [CHR 0xE2, CHR 0x80, CHR 0xA8],
       [CHR 0xE2, CHR 0x80, CHR 0xA9], [CHR 0xE2, CHR 0x80, CHR 0xAF],
       [CHR 0xE2, CHR 0x81, CHR 0x9F], [CHR 0xE3, CHR 0x80, CHR 0x80],
       [CHR 0xEF, CHR 0xBB, CHR 0xBF] ]"

text \<open>
  The rest of the string after one whitespace character, when the string starts with
  one. No entry of the table is a prefix of another, so at most one applies.
\<close>

definition skip_space :: "string \<Rightarrow> string option" where
  "skip_space s =
     (case find (\<lambda>w. prefix w s) js_whitespace of
        None \<Rightarrow> None
      | Some w \<Rightarrow> Some (drop (length w) s))"

function match_at :: "atom list \<Rightarrow> string \<Rightarrow> bool" where
  "match_at [] s = True"
| "match_at (Chr c # p) [] = False"
| "match_at (Chr c # p) (d # s) = (lower_char d = lower_char c \<and> match_at p s)"
| "match_at (Opt cs # p) s =
     ((case s of [] \<Rightarrow> False | d # s' \<Rightarrow> d \<in> set cs \<and> match_at p s') \<or> match_at p s)"
| "match_at (Spaces1 # p) s =
     (case skip_space s of
        None \<Rightarrow> False
      | Some s' \<Rightarrow> match_at p s' \<or> match_at (Spaces1 # p) s')"
  by pat_completeness auto
termination
proof -
  have shorter: "length s' < length s" if "skip_space s = Some s'" for s s'
  proof -
    from that obtain w where w: "find (\<lambda>w. prefix w s) js_whitespace = Some w"
        "s' = drop (length w) s"
      by (auto simp: skip_space_def split: option.splits)
    from w(1) have "w \<in> set js_whitespace" "prefix w s"
      by (auto simp: find_Some_iff)
    moreover from \<open>w \<in> set js_whitespace\<close> have "w \<noteq> []"
      by (auto simp: js_whitespace_def)
    ultimately show ?thesis
      using w(2) by (auto simp: prefix_def)
  qed
  show ?thesis
    by (relation "measure (\<lambda>(p, s). length p + length s)") (auto dest: shorter)
qed

text \<open>\<open>pattern.test(s)\<close>: the pattern matches at some position of \<open>s\<close>.\<close>

fun RegExp_test :: "atom list \<Rightarrow> string \<Rightarrow> bool" where
  "RegExp_test p [] = match_at p []"
| "RegExp_test p (c # cs) = (match_at p (c # cs) \<or> RegExp_test p cs)"

section \<open>Data model (types/index.ts)\<close>

text \<open>
  What \<open>JSON.parse\<close> returns. An object keeps its members in the order of the text; a
  repeated key reads as its last occurrence. \<open>JUndefined\<close> is the value of reading a
  property that is missing; it never occurs inside what \<open>JSON.parse\<close> returns.
\<close>

datatype json =
    JUndefined
  | JNull
  | JBool bool
  | JNum jsnum
  | JStr string
  | JArr "json list"
  | JObj "(string \<times> json) list"

text \<open>
  \<open>IssueAnalysis\<close>. The parser copies \<open>type\<close>, \<open>severity\<close>, \<open>priority\<close>, \<open>description\<close>
  and the list fields from the completion without validating them, so they hold whatever
  JSON value the completion carried there; \<open>confidence\<close> and \<open>autoFixable\<close> are
  converted by the parser.
\<close>

record IssueAnalysis =
  atype :: json
  severity :: json
  priority :: json
  confidence :: jsnum
  description :: json
  suggestedLabels :: json
  estimatedTime :: json
  autoFixable :: bool
  relatedFiles :: json
  dependencies :: json

datatype change_type = Add | Remove | Replace

record FileChange =
  lineNumber :: int
  ctype :: change_type
  content :: string
  originalContent :: "string option"

datatype file_action = Create | Update | Delete

record FileEdit =
  path :: string
  action :: file_action
  content :: "string option"
  changes :: "FileChange list option"

datatype fix_type = Code_change | Config_change | Dependency_update | Documentation

datatype risk_level = Low | Medium | High

record AutoFixSuggestion =
  ftype :: fix_type
  description :: string
  files :: "FileEdit list"
  commands :: "string list option"
  confidence :: jsnum
  riskLevel :: risk_level
  testRequired :: bool

text \<open>
  The settings of \<open>config.ai\<close> the pipeline reads. The two numbers come from
  \<open>parseInt\<close> and \<open>parseFloat\<close> of environment variables, so either may be \<open>NaN\<close>.
\<close>

record ai_config =
  autoFixEnabled :: bool
  maxAutoFixComplexity :: jsnum
  confidenceThreshold :: jsnum

section \<open>The fix safety gate (services/autofix.ts)\<close>

definition criticalFiles :: "string list" where
  "criticalFiles =
     [''package.json'', ''package-lock.json'', ''yarn.lock'',
      ''Dockerfile'', ''docker-compose.yml'',
      ''.env'', ''.env.local'', ''.env.production'',
      ''nginx.conf'', ''apache.conf'']"

definition dangerousPatterns :: "atom list list" where
  "dangerousPatterns =
     [map Chr ''rm'' @ Spaces1 # map Chr ''-rf'',
      map Chr ''sudo'',
      map Chr ''chmod'' @ Spaces1 # map Chr ''777'',
      map Chr ''password'',
      map Chr ''secret'',
      map Chr ''api'' @ Opt ''_-'' # map Chr ''key'',
      map Chr ''private'' @ Opt ''_-'' # map Chr ''key'']"

definition hasCriticalFiles :: "AutoFixSuggestion \<Rightarrow> bool" where
  "hasCriticalFiles autoFix =
     list_ex (\<lambda>file. list_ex (\<lambda>critical. endsWith (path file) critical) criticalFiles)
       (files autoFix)"

text \<open>
  \<open>file.content && dangerousPatterns.some(...)\<close>: an absent content and the empty
  string are both falsy, and the patterns are then not tried.
\<close>

definition hasDangerousContent :: "AutoFixSuggestion \<Rightarrow> bool" where
  "hasDangerousContent autoFix =
     list_ex (\<lambda>file.
        case FileEdit.content file of
          None \<Rightarrow> False
        | Some c \<Rightarrow> c \<noteq> [] \<and> list_ex (\<lambda>pattern. RegExp_test pattern c) dangerousPatterns)
       (files autoFix)"

definition isAutoFixSafe :: "ai_config \<Rightarrow> AutoFixSuggestion \<Rightarrow> IssueAnalysis \<Rightarrow> bool" where
  "isAutoFixSafe cfg autoFix analysis =
     (if js_lt (AutoFixSuggestion.confidence autoFix) (confidenceThreshold cfg) then False
      else if riskLevel autoFix = High then False
      else if js_gt (Fin (real (length (files autoFix)))) (maxAutoFixComplexity cfg) then False
      else if hasCriticalFiles autoFix \<and> riskLevel autoFix \<noteq> Low then False
      else if hasDangerousContent autoFix then False
      else True)"

section \<open>Line-level edits (applyFileChanges, services/autofix.ts)\<close>

text \<open>\<open>s.split('\n')\<close>: never empty, the empty string gives one empty line.\<close>

fun split_lines :: "string \<Rightarrow> string list" where
  "split_lines [] = [[]]"
| "split_lines (c # cs) =
     (if c = CHR 0x0A then [] # split_lines cs
      else (case split_lines cs of [] \<Rightarrow> [[c]] | l # ls \<Rightarrow> (c # l) # ls))"

text \<open>\<open>lines.join('\n')\<close>.\<close>

fun join_lines :: "string list \<Rightarrow> string" where
  "join_lines [] = []"
| "join_lines [l] = l"
| "join_lines (l # ls) = l @ CHR 0x0A # join_lines ls"

text \<open>
  The start index of \<open>Array.prototype.splice\<close>: a negative index counts from the end,
  and the result is clamped into the array.
\<close>

definition splice_start :: "int \<Rightarrow> nat \<Rightarrow> nat" where
  "splice_start i n = (if i < 0 then nat (max (int n + i) 0) else min (nat i) n)"

text \<open>\<open>xs.splice(i, 0, x)\<close> and \<open>xs.splice(i, 1)\<close>.\<close>

definition splice_insert :: "int \<Rightarrow> 'a \<Rightarrow> 'a list \<Rightarrow> 'a list" where
  "splice_insert i x xs = (let k = splice_start i (length xs) in take k xs @ x # drop k xs)"

definition splice_remove :: "int \<Rightarrow> 'a list \<Rightarrow> 'a list" where
  "splice_remove i xs = (let k = splice_start i (length xs) in take k xs @ drop (Suc k) xs)"

text \<open>
  \<open>changes.sort((a, b) => b.lineNumber - a.lineNumber)\<close>: a stable sort into descending
  line numbers. Line numbers are taken to be integers.
\<close>

definition sortChanges :: "FileChange list \<Rightarrow> FileChange list" where
  "sortChanges chs = sort_key (\<lambda>change. - lineNumber change) chs"

text \<open>The body of the loop over the sorted changes.\<close>

definition applyChange :: "string list \<Rightarrow> FileChange \<Rightarrow> string list" where
  "applyChange lines change =
     (let lineIndex = lineNumber change - 1 in
      case ctype change of
        Add \<Rightarrow> splice_insert lineIndex (FileChange.content change) lines
      | Remove \<Rightarrow>
          if 0 \<le> lineIndex \<and> lineIndex < int (length lines)
          then splice_remove lineIndex lines else lines
      | Replace \<Rightarrow>
          if 0 \<le> lineIndex \<and> lineIndex < int (length lines)
          then lines[nat lineIndex := FileChange.content change] else lines)"

definition applyFileChanges :: "string \<Rightarrow> FileChange list \<Rightarrow> string" where
  "applyFileChanges original chs =
     join_lines (foldl applyChange (split_lines original) (sortChanges chs))"

section \<open>JavaScript conversions used by the parsers\<close>

text \<open>\<open>ToBoolean\<close>, as \<open>||\<close> and \<open>Boolean(...)\<close> apply it.\<close>

fun truthy :: "json \<Rightarrow> bool" where
  "truthy JUndefined = False"
| "truthy JNull = False"
| "truthy (JBool b) = b"
| "truthy (JNum n) = (n \<noteq> NaN \<and> n \<noteq> Fin 0)"
| "truthy (JStr s) = (s \<noteq> [])"
| "truthy (JArr xs) = True"
| "truthy (JObj kvs) = True"

definition js_or :: "json \<Rightarrow> json \<Rightarrow> json" where
  "js_or a b = (if truthy a then a else b)"

text \<open>
  \<open>StringToNumber\<close> (ECMAScript, StringNumericLiteral): white space is trimmed, the
  empty string is 0, and the rest is a signed decimal literal (digits, fraction,
  exponent, or \<open>Infinity\<close>) or an unsigned literal in base 16, 8 or 2; every other string
  is \<open>NaN\<close>. The value of a literal is not rounded to binary64.
\<close>

function trim_start :: "string \<Rightarrow> string" where
  "trim_start s = (case skip_space s of None \<Rightarrow> s | Some s' \<Rightarrow> trim_start s')"
  by pat_completeness auto
termination
proof -
  have shorter: "length s' < length s" if "skip_space s = Some s'" for s s'
  proof -
    from that obtain w where w: "find (\<lambda>w. prefix w s) js_whitespace = Some w"
        "s' = drop (length w) s"
      by (auto simp: skip_space_def split: option.splits)
    from w(1) have "w \<in> set js_whitespace" "prefix w s"
      by (auto simp: find_Some_iff)
    moreover from \<open>w \<in> set js_whitespace\<close> have "w \<noteq> []"
      by (auto simp: js_whitespace_def)
    ultimately show ?thesis
      using w(2) by (auto simp: prefix_def)
  qed
  show ?thesis
    by (relation "measure length") (auto dest: shorter)
qed

declare trim_start.simps [simp del]

function trim_end :: "string \<Rightarrow> string" where
  "trim_end s =
     (case find (\<lambda>w. w \<noteq> [] \<and> suffix w s) js_whitespace of
        None \<Rightarrow> s
      | Some w \<Rightarrow> trim_end (take (length s - length w) s))"
  by pat_completeness auto
termination
  by (relation "measure length") (auto simp: find_Some_iff suffix_def)

declare trim_end.simps [simp del]

definition digit_value :: "char \<Rightarrow> nat option" where
  "digit_value c =
     map_of (zip ''0123456789abcdefABCDEF''
               [0, 1, 2, 3, 4, 5, 6, 7, 8, 9, 10, 11, 12, 13, 14, 15, 10, 11, 12, 13, 14, 15]) c"

definition is_digit :: "nat \<Rightarrow> char \<Rightarrow> bool" where
  "is_digit base c = (case digit_value c of None \<Rightarrow> False | Some v \<Rightarrow> v < base)"

definition digits_value :: "nat \<Rightarrow> string \<Rightarrow> nat" where
  "digits_value base ds =
     foldl (\<lambda>a c. base * a + (case digit_value c of None \<Rightarrow> 0 | Some v \<Rightarrow> v)) 0 ds"

text \<open>\<open>0x\<close>, \<open>0o\<close> and \<open>0b\<close> literals; \<open>None\<close> when the string is not one.\<close>

definition NonDecimalIntegerLiteral :: "string \<Rightarrow> jsnum option" where
  "NonDecimalIntegerLiteral s =
     (case s of
        z # x # ds \<Rightarrow>
          (case map_of [(CHR ''x'', 16), (CHR ''X'', 16), (CHR ''o'', 8), (CHR ''O'', 8),
                        (CHR ''b'', 2), (CHR ''B'', 2)] x of
             Some base \<Rightarrow>
               if z = CHR ''0'' \<and> ds \<noteq> [] \<and> list_all (is_digit base) ds
               then Some (Fin (real (digits_value base ds))) else None
           | None \<Rightarrow> None)
      | _ \<Rightarrow> None)"

text \<open>The exponent part at the end of a decimal literal; \<open>None\<close> when it is malformed.\<close>

definition ExponentPart :: "string \<Rightarrow> int option" where
  "ExponentPart s =
     (case s of
        [] \<Rightarrow> Some 0
      | e # r \<Rightarrow>
          if e = CHR ''e'' \<or> e = CHR ''E'' then
            (let ds = (case r of [] \<Rightarrow> [] | g # r' \<Rightarrow> if g = CHR ''+'' \<or> g = CHR ''-'' then r' else r)
             in if ds \<noteq> [] \<and> list_all (is_digit 10) ds
                then Some (if take 1 r = ''-'' then - int (digits_value 10 ds)
                           else int (digits_value 10 ds))
                else None)
          else None)"

definition StrUnsignedDecimalLiteral :: "string \<Rightarrow> jsnum" where
  "StrUnsignedDecimalLiteral s =
     (if s = ''Infinity'' then PosInf
      else
        let ip = takeWhile (is_digit 10) s;
            r1 = dropWhile (is_digit 10) s;
            fp = (case r1 of [] \<Rightarrow> [] | d # r \<Rightarrow> if d = CHR ''.'' then takeWhile (is_digit 10) r else []);
            r2 = (case r1 of [] \<Rightarrow> [] | d # r \<Rightarrow> if d = CHR ''.'' then dropWhile (is_digit 10) r else r1)
        in if ip = [] \<and> fp = [] then NaN
           else (case ExponentPart r2 of
                   None \<Rightarrow> NaN
                 | Some e \<Rightarrow>
                     let m = real (digits_value 10 ip) + real (digits_value 10 fp) / 10 ^ length fp
                     in Fin (if 0 \<le> e then m * 10 ^ nat e else m / 10 ^ nat (- e))))"

definition js_neg :: "jsnum \<Rightarrow> jsnum" where
  "js_neg n = (case n of NaN \<Rightarrow> NaN | NegInf \<Rightarrow> PosInf | Fin x \<Rightarrow> Fin (- x) | PosInf \<Rightarrow> NegInf)"

definition StringToNumber :: "string \<Rightarrow> jsnum" where
  "StringToNumber s =
     (let t = trim_end (trim_start s) in
      case t of
        [] \<Rightarrow> Fin 0
      | c # r \<Rightarrow>
          (case NonDecimalIntegerLiteral t of
             Some n \<Rightarrow> n
           | None \<Rightarrow>
               if c = CHR ''+'' then StrUnsignedDecimalLiteral r
               else if c = CHR ''-'' then js_neg (StrUnsignedDecimalLiteral r)
               else StrUnsignedDecimalLiteral t))"

text \<open>
  \<open>ToNumber\<close>, as \<open>Math.max\<close> applies it to its arguments. An array is converted through
  its string, the elements joined by commas with \<open>null\<close> and \<open>undefined\<close> as the empty
  string: the empty array is 0, an array of one element converts as that element's
  string does, and a longer one contains a comma and is \<open>NaN\<close>. An object is
  \<open>[object Object]\<close>, which is \<open>NaN\<close>.
\<close>

fun ToNumber :: "json \<Rightarrow> jsnum" where
  "ToNumber JUndefined = NaN"
| "ToNumber JNull = Fin 0"
| "ToNumber (JBool b) = (if b then Fin 1 else Fin 0)"
| "ToNumber (JNum n) = n"
| "ToNumber (JStr s) = StringToNumber s"
| "ToNumber (JObj kvs) = NaN"
| "ToNumber (JArr []) = Fin 0"
| "ToNumber (JArr [JUndefined]) = Fin 0"
| "ToNumber (JArr [JNull]) = Fin 0"
| "ToNumber (JArr [JBool b]) = NaN"
| "ToNumber (JArr [x]) = ToNumber x"
| "ToNumber (JArr (x # y # zs)) = NaN"

text \<open>
  Reading a property, and the operator \<open>in\<close>, for the property names the parsers use:
  none of them is a property of \<open>Object.prototype\<close> or \<open>Array.prototype\<close>, so an object
  has exactly its own members and an array has none of them. \<open>in\<close> throws a
  \<open>TypeError\<close> on a value that is not an object (\<open>None\<close>).
\<close>

definition get_prop :: "json \<Rightarrow> string \<Rightarrow> json" where
  "get_prop v k =
     (case v of
        JObj kvs \<Rightarrow> (case map_of (rev kvs) k of None \<Rightarrow> JUndefined | Some x \<Rightarrow> x)
      | _ \<Rightarrow> JUndefined)"

definition js_in :: "string \<Rightarrow> json \<Rightarrow> bool option" where
  "js_in k v =
     (case v of
        JObj kvs \<Rightarrow> Some (k \<in> set (map fst kvs))
      | JArr xs \<Rightarrow> Some False
      | _ \<Rightarrow> None)"

section \<open>The Analyzer's response parser (services/ai.ts)\<close>

text \<open>The two Chinese literals of the parser, in UTF-8.\<close>

definition text_unknown :: string where
  "text_unknown = [CHR 0xE6, CHR 0x9C, CHR 0xAA, CHR 0xE7, CHR 0x9F, CHR 0xA5]"

definition text_analysis_failed :: string where
  "text_analysis_failed =
     [CHR 0xE8, CHR 0x87, CHR 0xAA, CHR 0xE5, CHR 0x8A, CHR 0xA8, CHR 0xE5, CHR 0x88, CHR 0x86,
      CHR 0xE6, CHR 0x9E, CHR 0x90, CHR 0xE5, CHR 0xA4, CHR 0xB1, CHR 0xE8, CHR 0xB4, CHR 0xA5,
      CHR 0xEF, CHR 0xBC, CHR 0x8C, CHR 0xE9, CHR 0x9C, CHR 0x80, CHR 0xE8, CHR 0xA6, CHR 0x81,
      CHR 0xE4, CHR 0xBA, CHR 0xBA, CHR 0xE5, CHR 0xB7, CHR 0xA5, CHR 0xE5, CHR 0xAE, CHR 0xA1,
      CHR 0xE6, CHR 0x9F, CHR 0xA5]"

text \<open>The default analysis of the \<open>catch\<close> branch.\<close>

definition fallbackAnalysis :: IssueAnalysis where
  "fallbackAnalysis =
     \<lparr>atype = JStr ''other'', severity = JStr ''medium'', priority = JStr ''medium'',
      confidence = Fin (3/10), description = JStr text_analysis_failed,
      suggestedLabels = JArr [JStr ''needs-review''], estimatedTime = JStr text_unknown,
      autoFixable = False, relatedFiles = JArr [], dependencies = JArr []\<rparr>"

definition required :: "string list" where
  "required = [''type'', ''severity'', ''priority'', ''confidence'', ''description'']"

text \<open>
  The loop over \<open>required\<close>: \<open>Some True\<close> when every field is in the value, \<open>Some False\<close>
  when the loop throws its \<open>Error\<close> for a missing field, \<open>None\<close> when \<open>in\<close> throws.
\<close>

definition has_required :: "json \<Rightarrow> bool option" where
  "has_required parsed =
     (case js_in ''type'' parsed of
        None \<Rightarrow> None
      | Some _ \<Rightarrow> Some (list_all (\<lambda>field. js_in field parsed = Some True) required))"

text \<open>
  \<open>Math.min(Math.max(v || 0, 0), 1)\<close>, the clamp both parsers apply to \<open>confidence\<close>.
\<close>

definition clamp_confidence :: "json \<Rightarrow> jsnum" where
  "clamp_confidence v = Math_min (Math_max (ToNumber (js_or v (JNum (Fin 0)))) (Fin 0)) (Fin 1)"

text \<open>
  \<open>parseAnalysisResponse\<close>. The argument is the outcome of \<open>JSON.parse(content)\<close>:
  \<open>None\<close> when it throws a \<open>SyntaxError\<close>, the parsed value otherwise. Every exception
  of the \<open>try\<close> block ends in the \<open>catch\<close> branch, which returns the default analysis.
\<close>

definition parseAnalysisResponse :: "json option \<Rightarrow> IssueAnalysis" where
  "parseAnalysisResponse parse_result =
     (case parse_result of
        None \<Rightarrow> fallbackAnalysis
      | Some parsed \<Rightarrow>
          (case has_required parsed of
             None \<Rightarrow> fallbackAnalysis
           | Some False \<Rightarrow> fallbackAnalysis
           | Some True \<Rightarrow>
               \<lparr>atype = get_prop parsed ''type'',
                severity = get_prop parsed ''severity'',
                priority = get_prop parsed ''priority'',
                confidence = clamp_confidence (get_prop parsed ''confidence''),
                description = get_prop parsed ''description'',
                suggestedLabels = js_or (get_prop parsed ''suggestedLabels'') (JArr []),
                estimatedTime = js_or (get_prop parsed ''estimatedTime'') (JStr text_unknown),
                autoFixable = truthy (get_prop parsed ''autoFixable''),
                relatedFiles = js_or (get_prop parsed ''relatedFiles'') (JArr []),
                dependencies = js_or (get_prop parsed ''dependencies'') (JArr [])\<rparr>))"

section \<open>Events, stored records and the outside world\<close>

text \<open>The fields of the webhook payloads that the modelled code reads.\<close>

datatype issue_state = IssueOpen | IssueClosed

record GitHubLabel =
  name :: string

record GitHubIssue =
  number :: int
  title :: string
  body :: "string option"
  state :: issue_state
  labels :: "GitHubLabel list"
  created_at :: string

record GitHubRepository =
  repo_id :: int
  name :: string
  full_name :: string
  owner_login :: string
  language :: "string option"

record PullRequest =
  pr_number :: int
  head_ref :: string
  merged :: bool
  html_url :: string

datatype pr_action = PrOpened | PrClosed

text \<open>
  \<open>IssueSolution\<close>, as \<open>parseSolutionResponse\<close> builds it: like the analysis, it holds the
  values of the completion unvalidated.
\<close>

record IssueSolution =
  summary :: json
  steps :: json
  autoFix :: json
  additionalResources :: json
  estimatedTime :: json
  difficulty :: json

datatype IssueStatus =
    Pending | Analyzing | Analyzed | Auto_fixing | Fixed | Manual_required | Closed | Error

text \<open>
  A row of the table \<open>issues\<close>. The columns \<open>analysis\<close> and \<open>solution\<close> hold JSON text in
  the database; here they are the values that text encodes. Times are the ISO strings.
\<close>

record IssueRecord =
  record_id :: string
  issueNumber :: int
  repositoryId :: string
  repositoryName :: string
  title :: string
  body :: "string option"
  analysis :: IssueAnalysis
  solution :: "IssueSolution option"
  status :: IssueStatus
  createdAt :: string
  updatedAt :: string
  processedAt :: "string option"
  autoFixAttempted :: bool
  autoFixSuccessful :: "bool option"

text \<open>What is thrown: an \<open>Error\<close> of the code or its libraries, or the plain object
  \<open>RateLimiterRes\<close> with which the rate limiter rejects when no points are left.\<close>

datatype thrown = AnalysisError | DatabaseError | OtherError | RateLimiterRes

fun instanceof_Error :: "thrown \<Rightarrow> bool" where
  "instanceof_Error RateLimiterRes = False"
| "instanceof_Error e = True"

text \<open>
  A number that is an integer, \<open>NaN\<close> or an infinity, as \<open>parseInt\<close> returns it. The issue
  number of a call to the hosting API is such a number. The sign of zero is not kept:
  neither a template literal nor a JSON text shows it.
\<close>

datatype jsint = IsNaN | IntVal int | Infinity | NegInfinity

text \<open>A label of a call to \<open>issues.addLabels\<close>: a literal, a template literal
  \<open>`prefix${value}`\<close>, or a value spread from \<open>analysis.suggestedLabels\<close>.\<close>

datatype label_arg = Lit string | Templ string json | Spread json

text \<open>
  The body of a comment, by the template of the source that builds it and the values
  the template is filled with.
\<close>

datatype comment =
    AnalysisComment IssueAnalysis "IssueSolution option"
  | ErrorComment thrown
  | RateLimitComment
  | CommandResponse string
  | AutoFixCompletedComment int string
  | AutoFixCreatedComment int AutoFixSuggestion

text \<open>
  The calls to the hosting API that change something there. All calls of one event go to
  the repository of the event, which is left out. \<open>PutFile\<close> is
  \<open>repos.createOrUpdateFileContents\<close> (path, content, branch, revision hash when
  updating); \<open>CreatePull\<close> carries the issue, the changed files, the head and the base.
\<close>

datatype gh_call =
    AddLabels jsint "label_arg list"
  | RemoveLabel jsint string
  | CreateComment jsint comment
  | CloseIssue jsint
  | CreateRef string string
  | PutFile string string string "string option"
  | DeleteFile string string string
  | CreatePull int "string list" string string

text \<open>Details of an audit-log entry.\<close>

datatype log_details =
    AnalysisDetails IssueAnalysis
  | AutoFixDetails bool AutoFixSuggestion
  | PrDetails int bool string

text \<open>The statements that change the database.\<close>

datatype db_write =
    SaveRecord IssueRecord
  | UpdateStatus string IssueStatus
  | RecordAutoFix string bool
  | InsertLog string string log_details

datatype db_call = DbWrite db_write | DbGet string

text \<open>
  The state the handlers act on: the table \<open>issues\<close> by its primary key, the statements
  that changed the database so far (oldest first; the rows of \<open>issue_logs\<close> are its
  \<open>InsertLog\<close> entries), the calls the hosting API accepted so far (oldest first), the
  points consumed per key of the rate limiter in the current window, and the count of
  external calls made so far.
\<close>

record world =
  issues :: "string \<rightharpoonup> IssueRecord"
  db_trace :: "db_write list"
  github :: "gh_call list"
  limiter :: "string \<rightharpoonup> nat"
  clock :: nat

text \<open>
  Everything outside the program. Each external call is answered by its position in the
  run (the clock) and its arguments, so that any sequence of answers can be given:
  whether the hosting API accepts a changing call and whether the database accepts a
  statement (a call that is not accepted throws), the default branch, the hash of a
  branch head, the content and revision hash of a file on a branch (\<open>None\<close>: the call
  throws), the number of a newly opened pull request, and the completions of the
  language model. The completion for an analysis or a solution is given as the outcome of
  \<open>JSON.parse\<close> on its text (outer \<open>None\<close>: the request throws); for an auto-fix it is
  what \<open>parseAutoFixResponse\<close> returns, taken as typed by \<open>AutoFixSuggestion\<close>
  (\<open>None\<close>: \<open>null\<close>, also when the request throws). The read-only calls that gather the
  codebase context for a prompt are part of these answers.
\<close>

record env =
  config :: ai_config
  rateLimitMax :: nat
  now :: string
  gh_accepts :: "nat \<Rightarrow> gh_call \<Rightarrow> bool"
  db_accepts :: "nat \<Rightarrow> db_call \<Rightarrow> bool"
  default_branch :: "nat \<Rightarrow> string option"
  branch_sha :: "nat \<Rightarrow> string \<Rightarrow> string option"
  file_at :: "nat \<Rightarrow> string \<Rightarrow> string \<Rightarrow> (string \<times> string) option"
  pull_number :: "nat \<Rightarrow> int"
  analysis_completion :: "nat \<Rightarrow> GitHubIssue \<Rightarrow> GitHubRepository \<Rightarrow> json option option"
  solution_completion :: "nat \<Rightarrow> GitHubIssue \<Rightarrow> IssueAnalysis \<Rightarrow> json option option"
  autofix_completion :: "nat \<Rightarrow> GitHubIssue \<Rightarrow> IssueAnalysis \<Rightarrow> AutoFixSuggestion option"

definition tick :: "world \<Rightarrow> world" where
  "tick w = w\<lparr>clock := Suc (clock w)\<rparr>"

text \<open>A changing call to the hosting API: recorded when accepted, thrown otherwise.\<close>

definition octokit :: "env \<Rightarrow> gh_call \<Rightarrow> world \<Rightarrow> bool \<times> world" where
  "octokit e c w =
     (if gh_accepts e (clock w) c then (True, tick (w\<lparr>github := github w @ [c]\<rparr>))
      else (False, tick w))"

section \<open>The record store (services/database.ts)\<close>

text \<open>
  Each operation returns whether its promise resolved (\<open>True\<close>) or rejected. A rejected
  statement changes nothing.
\<close>

text \<open>\<open>INSERT OR REPLACE\<close> of the whole row; \<open>updated_at\<close> is the time of the call.\<close>

definition db_saveIssueRecord :: "env \<Rightarrow> IssueRecord \<Rightarrow> world \<Rightarrow> bool \<times> world" where
  "db_saveIssueRecord e r w =
     (if db_accepts e (clock w) (DbWrite (SaveRecord r))
      then (True, tick (w\<lparr>issues := (issues w)(record_id r \<mapsto> r\<lparr>updatedAt := now e\<rparr>),
                          db_trace := db_trace w @ [SaveRecord r]\<rparr>))
      else (False, tick w))"

definition db_getIssueRecord :: "env \<Rightarrow> string \<Rightarrow> world \<Rightarrow> (thrown + IssueRecord option) \<times> world" where
  "db_getIssueRecord e issueId w =
     (if db_accepts e (clock w) (DbGet issueId) then (Inr (issues w issueId), tick w)
      else (Inl DatabaseError, tick w))"

text \<open>\<open>UPDATE issues SET status = ?, updated_at = ? WHERE id = ?\<close>: no row, no change.\<close>

definition db_updateIssueStatus :: "env \<Rightarrow> string \<Rightarrow> IssueStatus \<Rightarrow> world \<Rightarrow> bool \<times> world" where
  "db_updateIssueStatus e issueId st w =
     (if db_accepts e (clock w) (DbWrite (UpdateStatus issueId st))
      then (True, tick (w\<lparr>issues :=
                 (case issues w issueId of
                    None \<Rightarrow> issues w
                  | Some r \<Rightarrow> (issues w)(issueId \<mapsto> r\<lparr>status := st, updatedAt := now e\<rparr>)),
               db_trace := db_trace w @ [UpdateStatus issueId st]\<rparr>))
      else (False, tick w))"

definition db_recordAutoFixAttempt :: "env \<Rightarrow> string \<Rightarrow> bool \<Rightarrow> world \<Rightarrow> bool \<times> world" where
  "db_recordAutoFixAttempt e issueId successful w =
     (if db_accepts e (clock w) (DbWrite (RecordAutoFix issueId successful))
      then (True, tick (w\<lparr>issues :=
                 (case issues w issueId of
                    None \<Rightarrow> issues w
                  | Some r \<Rightarrow> (issues w)(issueId \<mapsto>
                      r\<lparr>autoFixAttempted := True, autoFixSuccessful := Some successful,
                        processedAt := Some (now e), updatedAt := now e\<rparr>)),
               db_trace := db_trace w @ [RecordAutoFix issueId successful]\<rparr>))
      else (False, tick w))"

definition db_addIssueLog :: "env \<Rightarrow> string \<Rightarrow> string \<Rightarrow> log_details \<Rightarrow> world \<Rightarrow> bool \<times> world" where
  "db_addIssueLog e issueId act details w =
     (if db_accepts e (clock w) (DbWrite (InsertLog issueId act details))
      then (True, tick (w\<lparr>db_trace := db_trace w @ [InsertLog issueId act details]\<rparr>))
      else (False, tick w))"

section \<open>Numbers in strings\<close>

text \<open>The decimal digits of a natural number.\<close>

fun decimal :: "nat \<Rightarrow> string" where
  "decimal n =
     (if n < 10 then [''0123456789'' ! n]
      else decimal (n div 10) @ [''0123456789'' ! (n mod 10)])"

declare decimal.simps [simp del]

text \<open>
  The nearest binary64 value of a natural number, ties to the even significand; \<open>None\<close>
  when the nearest value is beyond the largest finite one.
\<close>

fun bit_length :: "nat \<Rightarrow> nat" where
  "bit_length n = (if n = 0 then 0 else Suc (bit_length (n div 2)))"

declare bit_length.simps [simp del]

definition round_binary64 :: "nat \<Rightarrow> nat option" where
  "round_binary64 m =
     (if m < 2 ^ 53 then Some m
      else let e = bit_length m - 53;
               q = m div 2 ^ e;
               r = m mod 2 ^ e;
               q' = (if 2 * r > 2 ^ e \<or> (2 * r = 2 ^ e \<and> odd q) then q + 1 else q)
           in if q' * 2 ^ e < 2 ^ 1024 then Some (q' * 2 ^ e) else None)"

text \<open>The Number value of a sign and a magnitude read from digits.\<close>

definition to_Number :: "bool \<Rightarrow> nat \<Rightarrow> jsint" where
  "to_Number negative m =
     (case round_binary64 m of
        None \<Rightarrow> if negative then NegInfinity else Infinity
      | Some v \<Rightarrow> IntVal (if negative then - int v else int v))"

text \<open>
  \<open>Number::toString\<close> of a positive integer \<open>v\<close>: the digits are those of the decimal
  number with the fewest significant digits whose binary64 value is \<open>v\<close>, the one closest
  to \<open>v\<close> when there are several. \<open>closest v p\<close> looks among the multiples of \<open>p\<close>;
  \<open>shortest v k\<close> tries \<open>10 ^ k\<close>, then the smaller powers of ten. Below \<open>1e21\<close> the
  number is printed in full, from there on with an exponent.
\<close>

definition closest :: "nat \<Rightarrow> nat \<Rightarrow> nat option" where
  "closest v p =
     (let lo = v div p * p;
          hi = lo + p;
          lo_ok = (round_binary64 lo = Some v);
          hi_ok = (round_binary64 hi = Some v)
      in if lo_ok \<and> hi_ok then
           (if v - lo < hi - v then Some lo
            else if hi - v < v - lo then Some hi
            else if even (v div p) then Some lo else Some hi)
         else if lo_ok then Some lo
         else if hi_ok then Some hi
         else None)"

fun shortest :: "nat \<Rightarrow> nat \<Rightarrow> nat" where
  "shortest v 0 = v"
| "shortest v (Suc k) =
     (case closest v (10 ^ Suc k) of Some c \<Rightarrow> c | None \<Rightarrow> shortest v k)"

definition nat_toString :: "nat \<Rightarrow> string" where
  "nat_toString v =
     (let c = shortest v (length (decimal v) - 1);
          n = length (decimal c);
          s = rev (dropWhile (\<lambda>d. d = CHR ''0'') (rev (decimal c)))
      in if n \<le> 21 then decimal c
         else take 1 s @ (if length s > 1 then ''.'' @ drop 1 s else []) @ ''e+'' @ decimal (n - 1))"

text \<open>An integer, and a number that may be \<open>NaN\<close> or infinite, as a template literal prints it.\<close>

definition int_to_string :: "int \<Rightarrow> string" where
  "int_to_string i =
     (if i < 0 then CHR ''-'' # nat_toString (nat (- i)) else nat_toString (nat i))"

definition jsint_to_string :: "jsint \<Rightarrow> string" where
  "jsint_to_string n =
     (case n of
        IsNaN \<Rightarrow> ''NaN''
      | Infinity \<Rightarrow> ''Infinity''
      | NegInfinity \<Rightarrow> ''-Infinity''
      | IntVal i \<Rightarrow> int_to_string i)"

text \<open>
  \<open>parseInt(s)\<close> without a radix: leading white space and a sign are skipped, \<open>0x\<close>
  selects base 16, and the longest run of digits is read; without a digit the result is
  \<open>NaN\<close>, otherwise the binary64 value nearest to the integer the digits denote.
\<close>

definition parseInt :: "string \<Rightarrow> jsint" where
  "parseInt s =
     (let t = trim_start s;
          negative = (take 1 t = ''-'');
          u = (if take 1 t = ''-'' \<or> take 1 t = ''+'' then drop 1 t else t);
          hex = (take 2 u = ''0x'' \<or> take 2 u = ''0X'');
          base = (if hex then 16 else 10);
          ds = takeWhile (is_digit base) (if hex then drop 2 u else u)
      in if ds = [] then IsNaN else to_Number negative (digits_value base ds))"

text \<open>\<open>s.replace(pattern, replacement)\<close> for a string pattern: the first occurrence.\<close>

fun replace_first :: "string \<Rightarrow> string \<Rightarrow> string \<Rightarrow> string" where
  "replace_first pat rep [] = (if pat = [] then rep else [])"
| "replace_first pat rep (c # cs) =
     (if prefix pat (c # cs) then rep @ drop (length pat) (c # cs)
      else c # replace_first pat rep cs)"

section \<open>The Solution Generator's response parser (services/ai.ts)\<close>

definition text_solution_failed :: string where
  "text_solution_failed =
     [CHR 0xE8, CHR 0xA7, CHR 0xA3, CHR 0xE5, CHR 0x86, CHR 0xB3, CHR 0xE6, CHR 0x96, CHR 0xB9,
      CHR 0xE6, CHR 0xA1, CHR 0x88, CHR 0xE7, CHR 0x94, CHR 0x9F, CHR 0xE6, CHR 0x88, CHR 0x90,
      CHR 0xE5, CHR 0xA4, CHR 0xB1, CHR 0xE8, CHR 0xB4, CHR 0xA5]"

definition text_solution_unparsed :: string where
  "text_solution_unparsed =
     [CHR 0xE8, CHR 0xA7, CHR 0xA3, CHR 0xE5, CHR 0x86, CHR 0xB3, CHR 0xE6, CHR 0x96, CHR 0xB9,
      CHR 0xE6, CHR 0xA1, CHR 0x88, CHR 0xE8, CHR 0xA7, CHR 0xA3, CHR 0xE6, CHR 0x9E, CHR 0x90,
      CHR 0xE5, CHR 0xA4, CHR 0xB1, CHR 0xE8, CHR 0xB4, CHR 0xA5, CHR 0xEF, CHR 0xBC, CHR 0x8C,
      CHR 0xE8, CHR 0xAF, CHR 0xB7, CHR 0xE6, CHR 0x9F, CHR 0xA5, CHR 0xE7, CHR 0x9C, CHR 0x8B,
      CHR 0xE5, CHR 0x8E, CHR 0x9F, CHR 0xE5, CHR 0xA7, CHR 0x8B, CHR 0x20, CHR 0x49, CHR 0x73,
      CHR 0x73, CHR 0x75, CHR 0x65, CHR 0x20, CHR 0xE5, CHR 0x86, CHR 0x85, CHR 0xE5, CHR 0xAE,
      CHR 0xB9]"

text \<open>
  \<open>parseSolutionResponse\<close>, on the outcome of \<open>JSON.parse\<close>. Reading a property of
  \<open>null\<close> throws; on every other value that is not an object it gives \<open>undefined\<close>.
\<close>

definition parseSolutionResponse :: "json option \<Rightarrow> IssueSolution" where
  "parseSolutionResponse parse_result =
     (let failed = \<lparr>summary = JStr text_solution_unparsed, steps = JArr [],
                     autoFix = JUndefined, additionalResources = JUndefined,
                     estimatedTime = JStr text_unknown, difficulty = JStr ''hard''\<rparr>
      in case parse_result of
           None \<Rightarrow> failed
         | Some JNull \<Rightarrow> failed
         | Some parsed \<Rightarrow>
             \<lparr>summary = js_or (get_prop parsed ''summary'') (JStr text_solution_failed),
              steps = js_or (get_prop parsed ''steps'') (JArr []),
              autoFix = get_prop parsed ''autoFix'',
              additionalResources = js_or (get_prop parsed ''additionalResources'') (JArr []),
              estimatedTime = js_or (get_prop parsed ''estimatedTime'') (JStr text_unknown),
              difficulty = js_or (get_prop parsed ''difficulty'') (JStr ''medium'')\<rparr>)"

section \<open>The Fix Applicator (services/autofix.ts)\<close>

text \<open>
  Building the arguments of a call to the hosting API and sending it are one step in
  this model: an exception while a body or a label list is built has the effect of a
  call that is not accepted. Writes to the operational log are left out.
\<close>

definition getDefaultBranch :: "env \<Rightarrow> world \<Rightarrow> string option \<times> world" where
  "getDefaultBranch e w = (default_branch e (clock w), tick w)"

text \<open>\<open>createBranch\<close> inside the \<open>try\<close> of \<open>applyAutoFix\<close> that swallows its exception.\<close>

definition createBranch :: "env \<Rightarrow> string \<Rightarrow> string \<Rightarrow> world \<Rightarrow> world" where
  "createBranch e branchName baseBranch w =
     (case branch_sha e (clock w) baseBranch of
        None \<Rightarrow> tick w
      | Some sha \<Rightarrow> snd (octokit e (CreateRef (''refs/heads/'' @ branchName) sha) (tick w)))"

definition content_or_empty :: "string option \<Rightarrow> string" where
  "content_or_empty c = (case c of None \<Rightarrow> [] | Some s \<Rightarrow> s)"

definition createFile :: "env \<Rightarrow> FileEdit \<Rightarrow> string \<Rightarrow> world \<Rightarrow> bool \<times> world" where
  "createFile e fc branchName w =
     octokit e (PutFile (path fc) (content_or_empty (FileEdit.content fc)) branchName None) w"

text \<open>
  \<open>applyFileChange\<close>: the result says whether the file was changed; every exception is
  caught and gives \<open>False\<close>. An update of a file that cannot be read is a create.
\<close>

definition applyFileChange :: "env \<Rightarrow> FileEdit \<Rightarrow> string \<Rightarrow> world \<Rightarrow> bool \<times> world" where
  "applyFileChange e fc branchName w =
     (case action fc of
        Create \<Rightarrow> createFile e fc branchName w
      | Update \<Rightarrow>
          (case file_at e (clock w) (path fc) branchName of
             None \<Rightarrow> createFile e fc branchName (tick w)
           | Some (existing, sha) \<Rightarrow>
               let newContent =
                     (case changes fc of
                        None \<Rightarrow> FileEdit.content fc
                      | Some chs \<Rightarrow>
                          if chs \<noteq> [] then Some (applyFileChanges existing chs)
                          else FileEdit.content fc)
               in octokit e (PutFile (path fc) (content_or_empty newContent) branchName (Some sha))
                    (tick w))
      | Delete \<Rightarrow>
          (case file_at e (clock w) (path fc) branchName of
             None \<Rightarrow> (False, tick w)
           | Some (existing, sha) \<Rightarrow> octokit e (DeleteFile (path fc) branchName sha) (tick w)))"

text \<open>The loop over \<open>autoFix.files\<close>; the result is \<open>changedFiles\<close>.\<close>

fun applyFiles :: "env \<Rightarrow> FileEdit list \<Rightarrow> string \<Rightarrow> world \<Rightarrow> string list \<times> world" where
  "applyFiles e [] branchName w = ([], w)"
| "applyFiles e (fc # fcs) branchName w =
     (case applyFileChange e fc branchName w of
        (success, w1) \<Rightarrow>
          (case applyFiles e fcs branchName w1 of
             (changed, w2) \<Rightarrow> ((if success then [path fc] else []) @ changed, w2)))"

definition prLabels :: "AutoFixSuggestion \<Rightarrow> label_arg list" where
  "prLabels fx =
     [Lit ''auto-fix'',
      Lit (''risk-'' @ (case riskLevel fx of Low \<Rightarrow> ''low'' | Medium \<Rightarrow> ''medium'' | High \<Rightarrow> ''high''))]
     @ (if testRequired fx then [Lit ''needs-testing''] else [])
     @ [Lit (case ftype fx of
               Code_change \<Rightarrow> ''code-change''
             | Config_change \<Rightarrow> ''configuration''
             | Dependency_update \<Rightarrow> ''dependencies''
             | Documentation \<Rightarrow> ''documentation'')]"

definition addPRLabels :: "env \<Rightarrow> int \<Rightarrow> AutoFixSuggestion \<Rightarrow> world \<Rightarrow> world" where
  "addPRLabels e prNumber fx w = snd (octokit e (AddLabels (IntVal prNumber) (prLabels fx)) w)"

definition addIssueComment :: "env \<Rightarrow> GitHubIssue \<Rightarrow> int \<Rightarrow> AutoFixSuggestion \<Rightarrow> world \<Rightarrow> world" where
  "addIssueComment e iss prNumber fx w =
     snd (octokit e (CreateComment (IntVal (number iss)) (AutoFixCreatedComment prNumber fx)) w)"

text \<open>
  \<open>applyAutoFix\<close>: the gate, the default branch, the branch \<open>autofix/issue-N\<close>, the file
  edits, and the pull request when a file was changed. Every exception is caught and
  gives \<open>False\<close>.
\<close>

definition applyAutoFix ::
  "env \<Rightarrow> GitHubIssue \<Rightarrow> AutoFixSuggestion \<Rightarrow> IssueAnalysis \<Rightarrow> world \<Rightarrow> bool \<times> world" where
  "applyAutoFix e iss fx an w =
     (if \<not> isAutoFixSafe (config e) fx an then (False, w)
      else
        let branchName = ''autofix/issue-'' @ int_to_string (number iss) in
        case getDefaultBranch e w of
          (None, w1) \<Rightarrow> (False, w1)
        | (Some baseBranch, w1) \<Rightarrow>
            (case applyFiles e (files fx) branchName (createBranch e branchName baseBranch w1) of
               (changedFiles, w3) \<Rightarrow>
                 if changedFiles = [] then (False, w3)
                 else
                   let prNumber = pull_number e (clock w3) in
                   (case octokit e (CreatePull (number iss) changedFiles branchName baseBranch) w3 of
                      (False, w4) \<Rightarrow> (False, w4)
                    | (True, w4) \<Rightarrow>
                        (True, addIssueComment e iss prNumber fx (addPRLabels e prNumber fx w4)))))"

section \<open>The pipeline (services/github.ts)\<close>

definition skipLabels :: "string list" where
  "skipLabels = [''duplicate'', ''invalid'', ''wontfix'', ''spam'']"

definition shouldProcessIssue :: "GitHubIssue \<Rightarrow> bool" where
  "shouldProcessIssue iss =
     (let hasSkipLabel =
            list_ex (\<lambda>label. toLowerCase (GitHubLabel.name label) \<in> set skipLabels) (labels iss)
      in if hasSkipLabel then False
         else if state iss \<noteq> IssueOpen then False
         else
           let hasProcessedLabel =
                 list_ex (\<lambda>label. GitHubLabel.name label
                            \<in> set [''issues-bot:analyzed'', ''issues-bot:processing''])
                   (labels iss)
           in \<not> hasProcessedLabel)"

definition generateIssueId :: "GitHubIssue \<Rightarrow> GitHubRepository \<Rightarrow> string" where
  "generateIssueId iss rp = full_name rp @ ''#'' @ int_to_string (number iss)"

definition addProcessingLabel :: "env \<Rightarrow> GitHubIssue \<Rightarrow> world \<Rightarrow> world" where
  "addProcessingLabel e iss w =
     snd (octokit e (AddLabels (IntVal (number iss)) [Lit ''issues-bot:processing'']) w)"

text \<open>
  \<open>analyzeIssue\<close> of the AI service, which the pipeline's own \<open>analyzeIssue\<close> rethrows:
  the request for the completion may throw; the parser never does.
\<close>

definition analyzeIssue ::
  "env \<Rightarrow> GitHubIssue \<Rightarrow> GitHubRepository \<Rightarrow> world \<Rightarrow> (thrown + IssueAnalysis) \<times> world" where
  "analyzeIssue e iss rp w =
     (case analysis_completion e (clock w) iss rp of
        None \<Rightarrow> (Inl AnalysisError, tick w)
      | Some parse_result \<Rightarrow> (Inr (parseAnalysisResponse parse_result), tick w))"

text \<open>\<open>saveIssueRecord\<close> of the pipeline: the new row, then the audit-log entry.\<close>

definition saveIssueRecord ::
  "env \<Rightarrow> GitHubIssue \<Rightarrow> GitHubRepository \<Rightarrow> IssueAnalysis \<Rightarrow> world \<Rightarrow> (thrown + unit) \<times> world" where
  "saveIssueRecord e iss rp an w =
     (let issueRecord =
            \<lparr>record_id = generateIssueId iss rp,
             issueNumber = number iss,
             repositoryId = int_to_string (repo_id rp),
             repositoryName = full_name rp,
             title = GitHubIssue.title iss,
             body = GitHubIssue.body iss,
             analysis = an,
             solution = None,
             status = Analyzed,
             createdAt = created_at iss,
             updatedAt = now e,
             processedAt = None,
             autoFixAttempted = False,
             autoFixSuccessful = None\<rparr>
      in case db_saveIssueRecord e issueRecord w of
           (False, w1) \<Rightarrow> (Inl DatabaseError, w1)
         | (True, w1) \<Rightarrow>
             (case db_addIssueLog e (record_id issueRecord) ''analyzed'' (AnalysisDetails an) w1 of
                (False, w2) \<Rightarrow> (Inl DatabaseError, w2)
              | (True, w2) \<Rightarrow> (Inr (), w2)))"

definition analysisLabels :: "IssueAnalysis \<Rightarrow> label_arg list" where
  "analysisLabels an =
     [Lit ''issues-bot:analyzed'', Templ ''type:'' (atype an),
      Templ ''severity:'' (severity an), Templ ''priority:'' (priority an),
      Spread (suggestedLabels an)]"

definition addAnalysisLabels :: "env \<Rightarrow> GitHubIssue \<Rightarrow> IssueAnalysis \<Rightarrow> world \<Rightarrow> world" where
  "addAnalysisLabels e iss an w =
     (case octokit e (RemoveLabel (IntVal (number iss)) ''issues-bot:processing'') w of
        (False, w1) \<Rightarrow> w1
      | (True, w1) \<Rightarrow> snd (octokit e (AddLabels (IntVal (number iss)) (analysisLabels an)) w1))"

text \<open>
  \<open>generateSolution\<close> of the pipeline: the solution, stored into the existing row when
  there is one; \<open>None\<close> (\<open>undefined\<close>) when anything throws.
\<close>

definition generateSolution ::
  "env \<Rightarrow> GitHubIssue \<Rightarrow> GitHubRepository \<Rightarrow> IssueAnalysis \<Rightarrow> world
     \<Rightarrow> IssueSolution option \<times> world" where
  "generateSolution e iss rp an w =
     (case solution_completion e (clock w) iss an of
        None \<Rightarrow> (None, tick w)
      | Some parse_result \<Rightarrow>
          let sol = parseSolutionResponse parse_result in
          (case db_getIssueRecord e (generateIssueId iss rp) (tick w) of
             (Inl err, w1) \<Rightarrow> (None, w1)
           | (Inr None, w1) \<Rightarrow> (Some sol, w1)
           | (Inr (Some existingRecord), w1) \<Rightarrow>
               (case db_saveIssueRecord e (existingRecord\<lparr>solution := Some sol\<rparr>) w1 of
                  (False, w2) \<Rightarrow> (None, w2)
                | (True, w2) \<Rightarrow> (Some sol, w2))))"

definition addAnalysisComment ::
  "env \<Rightarrow> GitHubIssue \<Rightarrow> IssueAnalysis \<Rightarrow> IssueSolution option \<Rightarrow> world \<Rightarrow> world" where
  "addAnalysisComment e iss an sol w =
     snd (octokit e (CreateComment (IntVal (number iss)) (AnalysisComment an sol)) w)"

definition addErrorComment :: "env \<Rightarrow> GitHubIssue \<Rightarrow> thrown \<Rightarrow> world \<Rightarrow> world" where
  "addErrorComment e iss err w =
     snd (octokit e (CreateComment (IntVal (number iss)) (ErrorComment err)) w)"

text \<open>
  \<open>generateAutoFix\<close> of the AI service: no request is made for an analysis that is not
  auto-fixable or whose confidence is below the threshold.
\<close>

definition generateAutoFix ::
  "env \<Rightarrow> GitHubIssue \<Rightarrow> IssueAnalysis \<Rightarrow> world \<Rightarrow> AutoFixSuggestion option \<times> world" where
  "generateAutoFix e iss an w =
     (if \<not> autoFixable an \<or> js_lt (IssueAnalysis.confidence an) (confidenceThreshold (config e))
      then (None, w)
      else (autofix_completion e (clock w) iss an, tick w))"

definition attemptAutoFix ::
  "env \<Rightarrow> GitHubIssue \<Rightarrow> GitHubRepository \<Rightarrow> IssueAnalysis \<Rightarrow> world \<Rightarrow> world" where
  "attemptAutoFix e iss rp an w =
     (case generateAutoFix e iss an w of
        (None, w1) \<Rightarrow> w1
      | (Some fx, w1) \<Rightarrow>
          (case applyAutoFix e iss fx an w1 of
             (success, w2) \<Rightarrow>
               (case db_recordAutoFixAttempt e (generateIssueId iss rp) success w2 of
                  (False, w3) \<Rightarrow> w3
                | (True, w3) \<Rightarrow>
                    snd (db_addIssueLog e (generateIssueId iss rp) ''auto_fix_attempted''
                           (AutoFixDetails success fx) w3))))"

text \<open>
  \<open>handleIssueOpened\<close>. Only the analysis and the first save can reach the outer
  \<open>catch\<close>, which posts the error comment; every other step catches its own exceptions.
\<close>

definition handleIssueOpened :: "env \<Rightarrow> GitHubIssue \<Rightarrow> GitHubRepository \<Rightarrow> world \<Rightarrow> world" where
  "handleIssueOpened e iss rp w =
     (if \<not> shouldProcessIssue iss then w
      else
        (case analyzeIssue e iss rp (addProcessingLabel e iss w) of
           (Inl err, w2) \<Rightarrow> addErrorComment e iss err w2
         | (Inr an, w2) \<Rightarrow>
             (case saveIssueRecord e iss rp an w2 of
                (Inl err, w3) \<Rightarrow> addErrorComment e iss err w3
              | (Inr u, w3) \<Rightarrow>
                  (case generateSolution e iss rp an (addAnalysisLabels e iss an w3) of
                     (sol, w5) \<Rightarrow>
                       let w6 = addAnalysisComment e iss an sol w5 in
                       if autoFixable an \<and> autoFixEnabled (config e)
                       then attemptAutoFix e iss rp an w6
                       else w6))))"

text \<open>The two messages of the \<open>fix\<close> command, in UTF-8.\<close>

definition text_trying_fix :: string where
  "text_trying_fix =
     [CHR 0xF0, CHR 0x9F, CHR 0x94, CHR 0xA7, CHR 0x20, CHR 0xE5, CHR 0xB0, CHR 0x9D, CHR 0xE8,
      CHR 0xAF, CHR 0x95, CHR 0xE8, CHR 0x87, CHR 0xAA, CHR 0xE5, CHR 0x8A, CHR 0xA8, CHR 0xE4,
      CHR 0xBF, CHR 0xAE, CHR 0xE5, CHR 0xA4, CHR 0x8D, CHR 0xE4, CHR 0xB8, CHR 0xAD, CHR 0x2E,
      CHR 0x2E, CHR 0x2E]"

definition text_no_record :: string where
  "text_no_record =
     [CHR 0xE2, CHR 0x9D, CHR 0x8C, CHR 0x20, CHR 0xE6, CHR 0x9C, CHR 0xAA, CHR 0xE6, CHR 0x89,
      CHR 0xBE, CHR 0xE5, CHR 0x88, CHR 0xB0, CHR 0xE5, CHR 0x88, CHR 0x86, CHR 0xE6, CHR 0x9E,
      CHR 0x90, CHR 0xE8, CHR 0xAE, CHR 0xB0, CHR 0xE5, CHR 0xBD, CHR 0x95, CHR 0xEF, CHR 0xBC,
      CHR 0x8C, CHR 0xE8, CHR 0xAF, CHR 0xB7, CHR 0xE5, CHR 0x85, CHR 0x88, CHR 0xE4, CHR 0xBD,
      CHR 0xBF, CHR 0xE7, CHR 0x94, CHR 0xA8, CHR 0x20, CHR 0x60, CHR 0x40, CHR 0x69, CHR 0x73,
      CHR 0x73, CHR 0x75, CHR 0x65, CHR 0x73, CHR 0x2D, CHR 0x62, CHR 0x6F, CHR 0x74, CHR 0x20,
      CHR 0x61, CHR 0x6E, CHR 0x61, CHR 0x6C, CHR 0x79, CHR 0x7A, CHR 0x65, CHR 0x60, CHR 0x20,
      CHR 0xE8, CHR 0xBF, CHR 0x9B, CHR 0xE8, CHR 0xA1, CHR 0x8C, CHR 0xE5, CHR 0x88, CHR 0x86,
      CHR 0xE6, CHR 0x9E, CHR 0x90, CHR 0xE3, CHR 0x80, CHR 0x82]"

definition addCommandResponse :: "env \<Rightarrow> GitHubIssue \<Rightarrow> string \<Rightarrow> world \<Rightarrow> world" where
  "addCommandResponse e iss message w =
     snd (octokit e (CreateComment (IntVal (number iss)) (CommandResponse message)) w)"

text \<open>
  \<open>handleFixCommand\<close>. A rejected read of the record is thrown on to the caller
  (\<open>handleIssueComment\<close>, which logs it).
\<close>

definition handleFixCommand ::
  "env \<Rightarrow> GitHubIssue \<Rightarrow> GitHubRepository \<Rightarrow> world \<Rightarrow> (thrown + unit) \<times> world" where
  "handleFixCommand e iss rp w =
     (case db_getIssueRecord e (generateIssueId iss rp)
             (addCommandResponse e iss text_trying_fix w) of
        (Inl err, w2) \<Rightarrow> (Inl err, w2)
      | (Inr None, w2) \<Rightarrow> (Inr (), addCommandResponse e iss text_no_record w2)
      | (Inr (Some rec), w2) \<Rightarrow> (Inr (), attemptAutoFix e iss rp (analysis rec) w2))"

section \<open>The event handlers (bot.ts)\<close>

text \<open>
  \<open>context.repo()\<close> of Probot returns an object with the two properties \<open>owner\<close> (the
  login of the repository's owner) and \<open>repo\<close> (the repository's name) and no other.
\<close>

record repo_params =
  owner :: string
  repo :: string

definition context_repo :: "GitHubRepository \<Rightarrow> repo_params" where
  "context_repo rp = \<lparr>owner = owner_login rp, repo = GitHubRepository.name rp\<rparr>"

text \<open>
  \<open>`${repo.full_name}`\<close> where \<open>repo\<close> is \<open>context.repo()\<close>: the property is missing, and
  a template literal prints \<open>undefined\<close> for it.
\<close>

definition repo_params_full_name :: "repo_params \<Rightarrow> string" where
  "repo_params_full_name r = ''undefined''"

text \<open>
  \<open>rateLimiter.consume(key)\<close> of \<open>RateLimiterMemory\<close> (package rate-limiter-flexible),
  from the package's documentation: the points consumed for the key are increased by
  one; the promise resolves while they do not exceed the limiter's points, and is
  rejected with a \<open>RateLimiterRes\<close> object, which is not an \<open>Error\<close>, once they do.
\<close>

definition rateLimiter_consume :: "env \<Rightarrow> string \<Rightarrow> world \<Rightarrow> (thrown + unit) \<times> world" where
  "rateLimiter_consume e k w =
     (let consumedPoints = (case limiter w k of None \<Rightarrow> 0 | Some n \<Rightarrow> n) + 1;
          w1 = w\<lparr>limiter := (limiter w)(k \<mapsto> consumedPoints)\<rparr>
      in if consumedPoints > rateLimitMax e then (Inl RateLimiterRes, w1) else (Inr (), w1))"

definition addRateLimitComment :: "env \<Rightarrow> GitHubIssue \<Rightarrow> world \<Rightarrow> world" where
  "addRateLimitComment e iss w =
     snd (octokit e (CreateComment (IntVal (number iss)) RateLimitComment) w)"

text \<open>
  The handler of \<open>issues.opened\<close>, parametrised by the limiter's \<open>consume\<close>. Inside the
  \<open>try\<close>, \<open>handleIssueOpened\<close> never throws, so the \<open>catch\<close> only sees what \<open>consume\<close>
  rejected with.
\<close>

definition issues_opened_with ::
  "(env \<Rightarrow> string \<Rightarrow> world \<Rightarrow> (thrown + unit) \<times> world)
     \<Rightarrow> env \<Rightarrow> GitHubIssue \<Rightarrow> GitHubRepository \<Rightarrow> world \<Rightarrow> world" where
  "issues_opened_with consume e iss rp w =
     (let rateLimiterKey = owner (context_repo rp) @ ''/'' @ repo (context_repo rp) in
      case consume e rateLimiterKey w of
        (Inr u, w1) \<Rightarrow> handleIssueOpened e iss rp w1
      | (Inl rateLimitError, w1) \<Rightarrow>
          if instanceof_Error rateLimitError then addRateLimitComment e iss w1 else w1)"

definition issues_opened :: "env \<Rightarrow> GitHubIssue \<Rightarrow> GitHubRepository \<Rightarrow> world \<Rightarrow> world" where
  "issues_opened = issues_opened_with rateLimiter_consume"

definition addAutoFixCompletedComment :: "env \<Rightarrow> jsint \<Rightarrow> PullRequest \<Rightarrow> world \<Rightarrow> world" where
  "addAutoFixCompletedComment e issueNo pr w =
     (case octokit e (CreateComment issueNo (AutoFixCompletedComment (pr_number pr) (head_ref pr))) w of
        (False, w1) \<Rightarrow> w1
      | (True, w1) \<Rightarrow> snd (octokit e (CloseIssue issueNo) w1))"

definition pr_action_name :: "pr_action \<Rightarrow> string" where
  "pr_action_name a = (case a of PrOpened \<Rightarrow> ''opened'' | PrClosed \<Rightarrow> ''closed'')"

text \<open>The handler of \<open>pull_request.opened\<close> and \<open>pull_request.closed\<close>.\<close>

definition pull_request_event ::
  "env \<Rightarrow> pr_action \<Rightarrow> PullRequest \<Rightarrow> GitHubRepository \<Rightarrow> world \<Rightarrow> world" where
  "pull_request_event e act pr rp w =
     (if startsWith (head_ref pr) ''autofix/issue-'' then
        let issueNo = parseInt (replace_first ''autofix/issue-'' [] (head_ref pr));
            issueId = repo_params_full_name (context_repo rp) @ ''#'' @ jsint_to_string issueNo
        in case db_addIssueLog e issueId (''autofix_pr_'' @ pr_action_name act)
                  (PrDetails (pr_number pr) (merged pr) (html_url pr)) w of
             (False, w1) \<Rightarrow> w1
           | (True, w1) \<Rightarrow>
               if act = PrClosed \<and> merged pr then
                 (case db_updateIssueStatus e issueId Fixed w1 of
                    (False, w2) \<Rightarrow> w2
                  | (True, w2) \<Rightarrow> addAutoFixCompletedComment e issueNo pr w2)
               else w1
      else w)"

section \<open>Sample events for the concrete cases\<close>

definition sample_config :: ai_config where
  "sample_config =
     \<lparr>autoFixEnabled = True, maxAutoFixComplexity = Fin 3, confidenceThreshold = Fin (4/5)\<rparr>"

text \<open>
  An outside world in which every call is accepted, the default branch is \<open>main\<close>, no
  file exists yet, and the language model answers with text that is not JSON.
\<close>

definition accepting_env :: env where
  "accepting_env =
     \<lparr>config = sample_config, rateLimitMax = 100, now = ''2024-05-01T10:00:00.000Z'',
      gh_accepts = (\<lambda>n c. True), db_accepts = (\<lambda>n c. True),
      default_branch = (\<lambda>n. Some ''main''), branch_sha = (\<lambda>n b. Some ''abc123''),
      file_at = (\<lambda>n p r. None), pull_number = (\<lambda>n. 9),
      analysis_completion = (\<lambda>n i r. Some None),
      solution_completion = (\<lambda>n i a. Some None),
      autofix_completion = (\<lambda>n i a. None)\<rparr>"

definition sample_repository :: GitHubRepository where
  "sample_repository =
     \<lparr>repo_id = 1, name = ''repo'', full_name = ''octo/repo'', owner_login = ''octo'',
      language = Some ''TypeScript''\<rparr>"

text \<open>Issue 42 of the sample repository, open, with the given label names.\<close>

definition sample_issue :: "string list \<Rightarrow> GitHubIssue" where
  "sample_issue names =
     \<lparr>number = 42, title = ''Crash on start'', body = None, state = IssueOpen,
      labels = map (\<lambda>n. \<lparr>GitHubLabel.name = n\<rparr>) names, created_at = ''2024-05-01T09:00:00Z''\<rparr>"

definition empty_world :: world where
  "empty_world =
     \<lparr>issues = Map.empty, db_trace = [], github = [], limiter = Map.empty, clock = 0\<rparr>"

text \<open>The row the pipeline stores for the sample issue when the analysis falls back.\<close>

definition sample_record :: IssueRecord where
  "sample_record =
     \<lparr>record_id = ''octo/repo#42'', issueNumber = 42, repositoryId = ''1'',
      repositoryName = ''octo/repo'', title = ''Crash on start'', body = None,
      analysis = fallbackAnalysis, solution = None, status = Analyzed,
      createdAt = ''2024-05-01T09:00:00Z'', updatedAt = ''2024-05-01T10:00:00.000Z'',
      processedAt = None, autoFixAttempted = False, autoFixSuccessful = None\<rparr>"

text \<open>A merged pull request from the branch \<open>autofix/issue-42\<close>.\<close>

definition sample_pull_request :: PullRequest where
  "sample_pull_request =
     \<lparr>pr_number = 9, head_ref = ''autofix/issue-42'', merged = True,
      html_url = ''https://github.com/octo/repo/pull/9''\<rparr>"

section \<open>Reading the calls of a run\<close>

text \<open>The calls the hosting API accepted between two states of one run.\<close>

definition new_calls :: "world \<Rightarrow> world \<Rightarrow> gh_call list" where
  "new_calls w w' = drop (length (github w)) (github w')"

fun is_file_write :: "gh_call \<Rightarrow> bool" where
  "is_file_write (PutFile p c b s) = True"
| "is_file_write (DeleteFile p b s) = True"
| "is_file_write c = False"

fun is_pull :: "gh_call \<Rightarrow> bool" where
  "is_pull (CreatePull n changed h b) = True"
| "is_pull c = False"

text \<open>The statements that changed the database between two states of one run.\<close>

definition new_writes :: "world \<Rightarrow> world \<Rightarrow> db_write list" where
  "new_writes w w' = drop (length (db_trace w)) (db_trace w')"

text \<open>
  What the issue-opened pipeline may write: a row in status \<open>analyzed\<close> whose auto-fix
  has not been attempted, the record of an auto-fix attempt, a log entry; no update of
  a status.
\<close>

fun pipeline_write :: "db_write \<Rightarrow> bool" where
  "pipeline_write (SaveRecord r) = (status r = Analyzed \<and> \<not> autoFixAttempted r)"
| "pipeline_write (UpdateStatus k st) = False"
| "pipeline_write (RecordAutoFix k ok) = True"
| "pipeline_write (InsertLog k a d) = True"

section \<open>Properties of the fix safety gate\<close>

lemma dangerous_pattern_needs_text:
  "pattern \<in> set dangerousPatterns \<Longrightarrow> RegExp_test pattern [] = False"
  by (auto simp: dangerousPatterns_def)

lemma hasCriticalFiles_iff:
  "hasCriticalFiles sug \<longleftrightarrow>
     (\<exists>file \<in> set (files sug). \<exists>critical \<in> set criticalFiles. endsWith (path file) critical)"
  by (simp add: hasCriticalFiles_def list_ex_iff)

lemma dangerous_file_iff:
  "(case co of None \<Rightarrow> False
    | Some c \<Rightarrow> c \<noteq> [] \<and> list_ex (\<lambda>pattern. RegExp_test pattern c) dangerousPatterns) \<longleftrightarrow>
   (\<exists>c. co = Some c \<and> (\<exists>pattern \<in> set dangerousPatterns. RegExp_test pattern c))"
  by (cases co) (auto simp: list_ex_iff dest: dangerous_pattern_needs_text)

lemma hasDangerousContent_iff:
  "hasDangerousContent sug \<longleftrightarrow>
     (\<exists>file \<in> set (files sug). \<exists>c. FileEdit.content file = Some c \<and>
        (\<exists>pattern \<in> set dangerousPatterns. RegExp_test pattern c))"
  by (simp add: hasDangerousContent_def list_ex_iff dangerous_file_iff)

text \<open>
  Claim C1. The gate \<open>isAutoFixSafe\<close> answers false whenever the suggestion's confidence
  is strictly below the configured threshold, or its risk level is high, or it edits
  more files than the configured maximum, or some edited path ends with a critical file
  name while the risk level is not low, or the full content of some edited file matches
  one of the dangerous patterns. The gate is a function of the suggestion, the
  classification and the two configured numbers alone: it reads nothing else and changes
  nothing, so equal inputs give the equal answer.
\<close>

theorem isAutoFixSafe_rejects:
  assumes "js_lt (AutoFixSuggestion.confidence sug) (confidenceThreshold cfg)
         \<or> riskLevel sug = High
         \<or> js_gt (Fin (real (length (files sug)))) (maxAutoFixComplexity cfg)
         \<or> ((\<exists>file \<in> set (files sug). \<exists>critical \<in> set criticalFiles.
                endsWith (path file) critical) \<and> riskLevel sug \<noteq> Low)
         \<or> (\<exists>file \<in> set (files sug). \<exists>c. FileEdit.content file = Some c \<and>
                (\<exists>pattern \<in> set dangerousPatterns. RegExp_test pattern c))"
  shows "isAutoFixSafe cfg sug an = False"
proof -
  from assms consider
      (confidence) "js_lt (AutoFixSuggestion.confidence sug) (confidenceThreshold cfg)"
    | (risk) "riskLevel sug = High"
    | (complexity) "js_gt (Fin (real (length (files sug)))) (maxAutoFixComplexity cfg)"
    | (critical) "hasCriticalFiles sug \<and> riskLevel sug \<noteq> Low"
    | (dangerous) "hasDangerousContent sug"
    unfolding hasCriticalFiles_iff hasDangerousContent_iff by blast
  then show ?thesis
    by cases (simp_all add: isAutoFixSafe_def)
qed

theorem isAutoFixSafe_rejects_witness:
  "isAutoFixSafe \<lparr>autoFixEnabled = True, maxAutoFixComplexity = Fin 3, confidenceThreshold = Fin (4/5)\<rparr>
     \<lparr>ftype = Code_change, description = ''tidy up'',
      files = [\<lparr>path = ''scripts/clean.sh'', action = Create,
                content = Some ''sudo rm -rf build'', changes = None\<rparr>],
      commands = None, confidence = Fin (9/10), riskLevel = Low, testRequired = False\<rparr>
     \<lparr>atype = JStr ''bug'', severity = JStr ''low'', priority = JStr ''low'',
      confidence = Fin (9/10), description = JStr ''typo'', suggestedLabels = JArr [],
      estimatedTime = JStr ''1h'', autoFixable = True, relatedFiles = JArr [],
      dependencies = JArr []\<rparr> = False"
proof -
  have "RegExp_test (map Chr ''sudo'') ''sudo rm -rf build''"
    by (simp add: lower_char_def)
  moreover have "map Chr ''sudo'' \<in> set dangerousPatterns"
    by (simp add: dangerousPatterns_def)
  ultimately have "\<exists>pattern \<in> set dangerousPatterns. RegExp_test pattern ''sudo rm -rf build''"
    by blast
  then show ?thesis
    by (intro isAutoFixSafe_rejects) simp
qed

text \<open>
  Claim C9. When no file edit of a suggestion carries a full content (the edits are
  line-level changes only), the dangerous-content check finds nothing, and the gate's
  answer is decided by the confidence, risk-level, edit-count and critical-path checks
  alone.
\<close>

theorem no_content_never_dangerous:
  assumes "\<forall>file \<in> set (files sug). FileEdit.content file = None"
  shows "hasDangerousContent sug = False \<and>
         (isAutoFixSafe cfg sug an \<longleftrightarrow>
            \<not> js_lt (AutoFixSuggestion.confidence sug) (confidenceThreshold cfg)
          \<and> riskLevel sug \<noteq> High
          \<and> \<not> js_gt (Fin (real (length (files sug)))) (maxAutoFixComplexity cfg)
          \<and> \<not> (hasCriticalFiles sug \<and> riskLevel sug \<noteq> Low))"
proof -
  from assms have "hasDangerousContent sug = False"
    by (auto simp: hasDangerousContent_iff)
  then show ?thesis
    by (auto simp: isAutoFixSafe_def)
qed

theorem no_content_never_dangerous_witness:
  "hasDangerousContent
     \<lparr>ftype = Code_change, description = ''rename'',
      files = [\<lparr>path = ''src/app.ts'', action = Update, content = None,
                changes = Some [\<lparr>lineNumber = 3, ctype = Replace, content = ''sudo'',
                                 originalContent = None\<rparr>]\<rparr>],
      commands = None, confidence = Fin (9/10), riskLevel = Medium, testRequired = True\<rparr> = False
   \<and> isAutoFixSafe \<lparr>autoFixEnabled = True, maxAutoFixComplexity = Fin 3, confidenceThreshold = Fin (4/5)\<rparr>
     \<lparr>ftype = Code_change, description = ''rename'',
      files = [\<lparr>path = ''src/app.ts'', action = Update, content = None,
                changes = Some [\<lparr>lineNumber = 3, ctype = Replace, content = ''sudo'',
                                 originalContent = None\<rparr>]\<rparr>],
      commands = None, confidence = Fin (9/10), riskLevel = Medium, testRequired = True\<rparr>
     \<lparr>atype = JStr ''bug'', severity = JStr ''low'', priority = JStr ''low'',
      confidence = Fin (9/10), description = JStr ''typo'', suggestedLabels = JArr [],
      estimatedTime = JStr ''1h'', autoFixable = True, relatedFiles = JArr [],
      dependencies = JArr []\<rparr>"
  using no_content_never_dangerous
    [of "\<lparr>ftype = Code_change, description = ''rename'',
      files = [\<lparr>path = ''src/app.ts'', action = Update, content = None,
                changes = Some [\<lparr>lineNumber = 3, ctype = Replace, content = ''sudo'',
                                 originalContent = None\<rparr>]\<rparr>],
      commands = None, confidence = Fin (9/10), riskLevel = Medium, testRequired = True\<rparr>"
        "\<lparr>autoFixEnabled = True, maxAutoFixComplexity = Fin 3, confidenceThreshold = Fin (4/5)\<rparr>"
        "\<lparr>atype = JStr ''bug'', severity = JStr ''low'', priority = JStr ''low'',
      confidence = Fin (9/10), description = JStr ''typo'', suggestedLabels = JArr [],
      estimatedTime = JStr ''1h'', autoFixable = True, relatedFiles = JArr [],
      dependencies = JArr []\<rparr>"]
  by (simp add: js_gt_def hasCriticalFiles_def criticalFiles_def endsWith_def suffix_to_prefix)

section \<open>Properties of the line-level edits\<close>

lemma split_lines_not_Nil: "split_lines s \<noteq> []"
  by (induction s) (auto split: list.splits)

lemma split_lines_no_newline: "l \<in> set (split_lines s) \<Longrightarrow> CHR 0x0A \<notin> set l"
  by (induction s arbitrary: l) (auto split: list.splits if_splits)

lemma split_lines_single: "CHR 0x0A \<notin> set l \<Longrightarrow> split_lines l = [l]"
  by (induction l) auto

lemma split_lines_append:
  "CHR 0x0A \<notin> set l \<Longrightarrow> split_lines (l @ CHR 0x0A # rest) = l # split_lines rest"
  by (induction l) auto

lemma split_join_lines:
  "ls \<noteq> [] \<Longrightarrow> \<forall>l \<in> set ls. CHR 0x0A \<notin> set l \<Longrightarrow> split_lines (join_lines ls) = ls"
  by (induction ls rule: join_lines.induct) (auto simp: split_lines_single split_lines_append)

lemma sortChanges_descending:
  "lineNumber b < lineNumber a \<Longrightarrow> sortChanges [a, b] = [a, b] \<and> sortChanges [b, a] = [a, b]"
  by (simp add: sortChanges_def)

lemma add10_remove5_on_lines:
  assumes "length ls = 20"
  shows "foldl applyChange ls
           [\<lparr>lineNumber = 10, ctype = Add, content = x, originalContent = oa\<rparr>,
            \<lparr>lineNumber = 5, ctype = Remove, content = c, originalContent = orm\<rparr>]
         = take 4 ls @ drop 5 (take 9 ls) @ x # drop 9 ls"
  using assms
  by (simp add: applyChange_def splice_insert_def splice_remove_def splice_start_def
      drop_take)

text \<open>
  Claim C7. Applying the edits \<open>{line 10, add "X"}\<close> and \<open>{line 5, remove}\<close> to a file of
  20 lines gives a file of 20 lines. The edits are processed in descending order of
  line number, whichever way round they are given: the line is added first, at index 9,
  and line 5 is removed afterwards. In the result the added line is line 9 and the
  original content of line 10 follows it directly, as line 10; lines 1 to 4 and 11 to 20
  keep their places and lines 6 to 9 move up by one.
\<close>

theorem applyFileChanges_add10_remove5:
  assumes "length (split_lines original) = 20"
  shows "sortChanges
           [\<lparr>lineNumber = 10, ctype = Add, content = ''X'', originalContent = oa\<rparr>,
            \<lparr>lineNumber = 5, ctype = Remove, content = c, originalContent = orm\<rparr>]
         = [\<lparr>lineNumber = 10, ctype = Add, content = ''X'', originalContent = oa\<rparr>,
            \<lparr>lineNumber = 5, ctype = Remove, content = c, originalContent = orm\<rparr>]
       \<and> applyFileChanges original
           [\<lparr>lineNumber = 5, ctype = Remove, content = c, originalContent = orm\<rparr>,
            \<lparr>lineNumber = 10, ctype = Add, content = ''X'', originalContent = oa\<rparr>]
         = applyFileChanges original
           [\<lparr>lineNumber = 10, ctype = Add, content = ''X'', originalContent = oa\<rparr>,
            \<lparr>lineNumber = 5, ctype = Remove, content = c, originalContent = orm\<rparr>]
       \<and> split_lines (applyFileChanges original
           [\<lparr>lineNumber = 10, ctype = Add, content = ''X'', originalContent = oa\<rparr>,
            \<lparr>lineNumber = 5, ctype = Remove, content = c, originalContent = orm\<rparr>])
         = take 4 (split_lines original) @ drop 5 (take 9 (split_lines original))
             @ ''X'' # drop 9 (split_lines original)
       \<and> length (split_lines (applyFileChanges original
           [\<lparr>lineNumber = 10, ctype = Add, content = ''X'', originalContent = oa\<rparr>,
            \<lparr>lineNumber = 5, ctype = Remove, content = c, originalContent = orm\<rparr>])) = 20
       \<and> split_lines (applyFileChanges original
           [\<lparr>lineNumber = 10, ctype = Add, content = ''X'', originalContent = oa\<rparr>,
            \<lparr>lineNumber = 5, ctype = Remove, content = c, originalContent = orm\<rparr>]) ! 8 = ''X''
       \<and> split_lines (applyFileChanges original
           [\<lparr>lineNumber = 10, ctype = Add, content = ''X'', originalContent = oa\<rparr>,
            \<lparr>lineNumber = 5, ctype = Remove, content = c, originalContent = orm\<rparr>]) ! 9
         = split_lines original ! 9"
proof -
  let ?add = "\<lparr>lineNumber = 10, ctype = Add, content = ''X'', originalContent = oa\<rparr>"
  let ?rem = "\<lparr>lineNumber = 5, ctype = Remove, content = c, originalContent = orm\<rparr>"
  let ?ls = "split_lines original"
  let ?r = "take 4 ?ls @ drop 5 (take 9 ?ls) @ ''X'' # drop 9 ?ls"
  have order: "sortChanges [?add, ?rem] = [?add, ?rem]" "sortChanges [?rem, ?add] = [?add, ?rem]"
    using sortChanges_descending [of ?rem ?add] by simp_all
  have lines: "foldl applyChange ?ls [?add, ?rem] = ?r"
    using assms by (rule add10_remove5_on_lines)
  have "\<forall>l \<in> set ?r. CHR 0x0A \<notin> set l"
    using split_lines_no_newline [of _ original]
    by (auto dest!: in_set_takeD in_set_dropD)
  moreover have "?r \<noteq> []" by simp
  ultimately have roundtrip: "split_lines (join_lines ?r) = ?r"
    using split_join_lines by blast
  have result: "split_lines (applyFileChanges original [?add, ?rem]) = ?r"
    by (simp only: applyFileChanges_def order lines roundtrip)
  have same: "applyFileChanges original [?rem, ?add] = applyFileChanges original [?add, ?rem]"
    by (simp only: applyFileChanges_def order)
  have len: "length ?r = 20" using assms by simp
  have at8: "?r ! 8 = ''X''" using assms by (simp add: nth_append)
  have at9: "?r ! 9 = ?ls ! 9" using assms by (simp add: nth_append)
  show ?thesis
    by (simp only: order(1) same result len at8 at9 simp_thms)
qed

theorem applyFileChanges_add10_remove5_witness:
  "length (split_lines ''l1\<newline>l2\<newline>l3\<newline>l4\<newline>l5\<newline>l6\<newline>l7\<newline>l8\<newline>l9\<newline>l10\<newline>l11\<newline>l12\<newline>l13\<newline>l14\<newline>l15\<newline>l16\<newline>l17\<newline>l18\<newline>l19\<newline>l20'') = 20
   \<and> split_lines (applyFileChanges
         ''l1\<newline>l2\<newline>l3\<newline>l4\<newline>l5\<newline>l6\<newline>l7\<newline>l8\<newline>l9\<newline>l10\<newline>l11\<newline>l12\<newline>l13\<newline>l14\<newline>l15\<newline>l16\<newline>l17\<newline>l18\<newline>l19\<newline>l20''
         [\<lparr>lineNumber = 10, ctype = Add, content = ''X'', originalContent = None\<rparr>,
          \<lparr>lineNumber = 5, ctype = Remove, content = '''', originalContent = None\<rparr>])
     = [''l1'', ''l2'', ''l3'', ''l4'', ''l6'', ''l7'', ''l8'', ''l9'', ''X'', ''l10'',
        ''l11'', ''l12'', ''l13'', ''l14'', ''l15'', ''l16'', ''l17'', ''l18'', ''l19'', ''l20'']"
proof -
  have len: "length (split_lines ''l1\<newline>l2\<newline>l3\<newline>l4\<newline>l5\<newline>l6\<newline>l7\<newline>l8\<newline>l9\<newline>l10\<newline>l11\<newline>l12\<newline>l13\<newline>l14\<newline>l15\<newline>l16\<newline>l17\<newline>l18\<newline>l19\<newline>l20'') = 20"
    by simp
  show ?thesis
    using applyFileChanges_add10_remove5 [OF len, of None "''''" None]
    by simp
qed

section \<open>Properties of the Analyzer's response parser\<close>

lemma clamp_range:
  "Math_min (Math_max n (Fin 0)) (Fin 1) = NaN \<or>
   (\<exists>x. Math_min (Math_max n (Fin 0)) (Fin 1) = Fin x \<and> 0 \<le> x \<and> x \<le> 1)"
  by (cases n) (auto simp: Math_max_def Math_min_def)

lemma clamp_NaN_iff: "Math_min (Math_max n (Fin 0)) (Fin 1) = NaN \<longleftrightarrow> n = NaN"
  by (cases n) (auto simp: Math_max_def Math_min_def)

text \<open>A completion that is not valid JSON gives the default analysis.\<close>

lemma parseAnalysisResponse_invalid_json: "parseAnalysisResponse None = fallbackAnalysis"
  by (simp add: parseAnalysisResponse_def)

text \<open>So does a completion that lacks one of the five required fields.\<close>

lemma parseAnalysisResponse_missing_field:
  assumes "field \<in> set required" and "js_in field parsed \<noteq> Some True"
  shows "parseAnalysisResponse (Some parsed) = fallbackAnalysis"
proof -
  from assms have "has_required parsed \<noteq> Some True"
    by (auto simp: has_required_def list_all_iff split: option.splits)
  then show ?thesis
    by (cases "has_required parsed") (auto simp: parseAnalysisResponse_def)
qed

lemma fallbackAnalysis_values:
  "atype fallbackAnalysis = JStr ''other'' \<and> severity fallbackAnalysis = JStr ''medium''
   \<and> priority fallbackAnalysis = JStr ''medium''
   \<and> IssueAnalysis.confidence fallbackAnalysis = Fin (3/10)
   \<and> autoFixable fallbackAnalysis = False"
  by (simp add: fallbackAnalysis_def)

text \<open>
  The confidence of the returned analysis is within 0 and 1 or it is \<open>NaN\<close>; it is within
  0 and 1 whenever the completion's \<open>confidence\<close> is a JSON number.
\<close>

lemma parseAnalysisResponse_confidence_range:
  "IssueAnalysis.confidence (parseAnalysisResponse r) = NaN \<or>
   (\<exists>x. IssueAnalysis.confidence (parseAnalysisResponse r) = Fin x \<and> 0 \<le> x \<and> x \<le> 1)"
proof (cases "\<exists>parsed. r = Some parsed \<and> has_required parsed = Some True")
  case True
  then obtain parsed where "r = Some parsed" "has_required parsed = Some True"
    by blast
  then have "IssueAnalysis.confidence (parseAnalysisResponse r) =
      Math_min (Math_max (ToNumber (js_or (get_prop parsed ''confidence'') (JNum (Fin 0))))
        (Fin 0)) (Fin 1)"
    by (simp add: parseAnalysisResponse_def clamp_confidence_def)
  then show ?thesis
    by (simp only: clamp_range)
next
  case False
  then have "parseAnalysisResponse r = fallbackAnalysis"
    by (cases r; cases "has_required (the r)")
       (auto simp: parseAnalysisResponse_def split: option.splits bool.splits)
  then have "IssueAnalysis.confidence (parseAnalysisResponse r) = Fin (3/10)"
    by (simp add: fallbackAnalysis_def)
  moreover have "(0::real) \<le> 3/10 \<and> (3/10::real) \<le> 1" by simp
  ultimately show ?thesis by blast
qed

lemma clamp_confidence_number:
  "\<exists>x. clamp_confidence (JNum n) = Fin x \<and> 0 \<le> x \<and> x \<le> 1"
  by (cases n) (auto simp: clamp_confidence_def js_or_def Math_max_def Math_min_def)

text \<open>
  Claim C2, at the completion
  \<open>{"type":"bug","severity":"low","priority":"low","confidence":"high","description":"d"}\<close>:
  the text is valid JSON and has the five required fields, so the parser does not fall
  back; \<open>"high" || 0\<close> is \<open>"high"\<close>, \<open>Math.max("high", 0)\<close> is \<open>NaN\<close> and so is
  \<open>Math.min(NaN, 1)\<close>. The returned confidence is \<open>NaN\<close>, which is not within 0 and 1.
\<close>

theorem parseAnalysisResponse_confidence_NaN:
  "IssueAnalysis.confidence
     (parseAnalysisResponse
        (Some (JObj [(''type'', JStr ''bug''), (''severity'', JStr ''low''),
                     (''priority'', JStr ''low''), (''confidence'', JStr ''high''),
                     (''description'', JStr ''d'')]))) = NaN"
proof -
  have "StringToNumber ''high'' = NaN"
    by (simp add: StringToNumber_def trim_start.simps trim_end.simps skip_space_def
        js_whitespace_def suffix_to_prefix NonDecimalIntegerLiteral_def
        StrUnsignedDecimalLiteral_def is_digit_def digit_value_def)
  then have "clamp_confidence (JStr ''high'') = NaN"
    by (simp add: clamp_confidence_def js_or_def Math_max_def Math_min_def)
  then show ?thesis
    by (simp add: parseAnalysisResponse_def has_required_def js_in_def required_def get_prop_def)
qed

section \<open>Properties of the handlers\<close>

lemma octokit_keeps [simp]:
  "issues (snd (octokit e c w)) = issues w"
  "db_trace (snd (octokit e c w)) = db_trace w"
  "limiter (snd (octokit e c w)) = limiter w"
  "clock (snd (octokit e c w)) = Suc (clock w)"
  by (simp_all add: octokit_def tick_def)

lemma octokit_github:
  "github (snd (octokit e c w)) = github w @ (if gh_accepts e (clock w) c then [c] else [])"
  by (simp add: octokit_def tick_def)

lemma octokit_fst [simp]: "fst (octokit e c w) = gh_accepts e (clock w) c"
  by (simp add: octokit_def)

lemma tick_keeps [simp]:
  "issues (tick w) = issues w" "db_trace (tick w) = db_trace w" "github (tick w) = github w"
  "limiter (tick w) = limiter w" "clock (tick w) = Suc (clock w)"
  by (simp_all add: tick_def)

lemma shouldProcessIssue_iff:
  "shouldProcessIssue iss \<longleftrightarrow>
     \<not> (\<exists>label \<in> set (labels iss). toLowerCase (GitHubLabel.name label) \<in> set skipLabels)
   \<and> state iss = IssueOpen
   \<and> \<not> (\<exists>label \<in> set (labels iss).
          GitHubLabel.name label \<in> {''issues-bot:analyzed'', ''issues-bot:processing''})"
  by (auto simp: shouldProcessIssue_def list_ex_iff Let_def)

text \<open>
  Claim C8. An issue that carries a skip label (\<open>duplicate\<close>, \<open>invalid\<close>, \<open>wontfix\<close> or
  \<open>spam\<close>, compared after lowering the label's name), or is not open, or carries one of
  the marker labels \<open>issues-bot:analyzed\<close> and \<open>issues-bot:processing\<close>, is left alone:
  \<open>handleIssueOpened\<close> returns the state it was given, and after the whole handler of
  \<open>issues.opened\<close> the hosting API has received no call (no label, no comment) and the
  database is unchanged (no record, no log entry), whatever the rate limiter and the
  outside world answer.
\<close>

theorem skipped_issue_is_untouched:
  assumes "(\<exists>label \<in> set (labels iss). toLowerCase (GitHubLabel.name label) \<in> set skipLabels)
         \<or> state iss \<noteq> IssueOpen
         \<or> (\<exists>label \<in> set (labels iss).
               GitHubLabel.name label \<in> {''issues-bot:analyzed'', ''issues-bot:processing''})"
  shows "handleIssueOpened e iss rp w = w
       \<and> github (issues_opened e iss rp w) = github w
       \<and> issues (issues_opened e iss rp w) = issues w
       \<and> db_trace (issues_opened e iss rp w) = db_trace w"
proof -
  from assms have skip: "\<not> shouldProcessIssue iss"
    unfolding shouldProcessIssue_iff by blast
  then have same: "handleIssueOpened e iss rp w' = w'" for w'
    by (simp add: handleIssueOpened_def)
  then show ?thesis
    by (simp add: issues_opened_def issues_opened_with_def rateLimiter_consume_def Let_def)
qed

theorem skipped_issue_is_untouched_witness:
  "toLowerCase ''WontFix'' \<in> set skipLabels
   \<and> handleIssueOpened accepting_env (sample_issue [''WontFix'']) sample_repository empty_world
       = empty_world
   \<and> github (issues_opened accepting_env (sample_issue [''WontFix'']) sample_repository empty_world)
       = []"
proof -
  have lower: "toLowerCase ''WontFix'' \<in> set skipLabels"
    by (simp add: toLowerCase_def lower_char_def skipLabels_def)
  then have "\<exists>label \<in> set (labels (sample_issue [''WontFix''])).
               toLowerCase (GitHubLabel.name label) \<in> set skipLabels"
    by (simp add: sample_issue_def)
  then show ?thesis
    using lower
      skipped_issue_is_untouched [of "sample_issue [''WontFix'']" accepting_env sample_repository empty_world]
    by (simp add: empty_world_def)
qed

text \<open>
  Claim C5, as stated, at the sample issue with an empty database and an outside world
  that accepts every call: the \<open>fix\<close> command posts two comments, the notice that a fix is
  being tried and then the explanation that no analysis was found.
\<close>

theorem fix_command_posts_two_comments:
  "issues empty_world (generateIssueId (sample_issue []) sample_repository) = None
   \<and> github (snd (handleFixCommand accepting_env (sample_issue []) sample_repository empty_world))
     = [CreateComment (IntVal 42) (CommandResponse text_trying_fix),
        CreateComment (IntVal 42) (CommandResponse text_no_record)]
   \<and> length (github (snd (handleFixCommand accepting_env (sample_issue []) sample_repository
                             empty_world))) = 2"
  by (simp add: handleFixCommand_def addCommandResponse_def db_getIssueRecord_def octokit_def
      tick_def accepting_env_def empty_world_def sample_issue_def)

text \<open>
  Claim C5, amended. A \<open>fix\<close> command on an issue without a stored record changes
  nothing in the database (no row, no status, no auto-fix attempt, no log entry), and
  posts, in this order, the notice that a fix is being tried (when the hosting API
  accepts it) and the explanation that the issue must be analyzed first (when the
  database answers the read and the hosting API accepts the comment): two comments when
  every call is accepted.
\<close>

theorem fix_command_without_record:
  assumes "issues w (generateIssueId iss rp) = None"
  shows "issues (snd (handleFixCommand e iss rp w)) = issues w
       \<and> db_trace (snd (handleFixCommand e iss rp w)) = db_trace w
       \<and> github (snd (handleFixCommand e iss rp w)) =
           github w
           @ (if gh_accepts e (clock w) (CreateComment (IntVal (number iss)) (CommandResponse text_trying_fix))
              then [CreateComment (IntVal (number iss)) (CommandResponse text_trying_fix)] else [])
           @ (if db_accepts e (Suc (clock w)) (DbGet (generateIssueId iss rp))
                 \<and> gh_accepts e (Suc (Suc (clock w)))
                      (CreateComment (IntVal (number iss)) (CommandResponse text_no_record))
              then [CreateComment (IntVal (number iss)) (CommandResponse text_no_record)] else [])"
  using assms
  by (simp add: handleFixCommand_def addCommandResponse_def db_getIssueRecord_def octokit_github)

theorem fix_command_without_record_witness:
  "issues empty_world (generateIssueId (sample_issue []) sample_repository) = None
   \<and> db_trace (snd (handleFixCommand accepting_env (sample_issue []) sample_repository empty_world))
       = []
   \<and> issues (snd (handleFixCommand accepting_env (sample_issue []) sample_repository empty_world))
       = Map.empty"
proof -
  have none: "issues empty_world (generateIssueId (sample_issue []) sample_repository) = None"
    by (simp add: empty_world_def)
  show ?thesis
    using none fix_command_without_record [OF none, of accepting_env]
    by (simp add: empty_world_def)
qed

text \<open>
  When \<open>consume\<close> rejects with an \<open>Error\<close>, the \<open>catch\<close> of the handler posts the
  rate-limit comment and the pipeline is not run.
\<close>

lemma issues_opened_with_Error:
  assumes "consume e (owner_login rp @ ''/'' @ GitHubRepository.name rp) w = (Inl err, w1)"
    and "instanceof_Error err"
  shows "issues_opened_with consume e iss rp w = addRateLimitComment e iss w1"
  using assms by (simp add: issues_opened_with_def context_repo_def)

text \<open>
  When the points of the repository's key are used up, \<open>consume\<close> rejects with the
  \<open>RateLimiterRes\<close> object; the test \<open>instanceof Error\<close> fails for it, so the handler
  takes the branch that only logs. The pipeline is not run and no comment is posted.
\<close>

lemma issues_opened_exhausted:
  assumes "limiter w (owner_login rp @ ''/'' @ GitHubRepository.name rp) = Some n"
    and "rateLimitMax e \<le> n"
  shows "github (issues_opened e iss rp w) = github w
       \<and> issues (issues_opened e iss rp w) = issues w
       \<and> db_trace (issues_opened e iss rp w) = db_trace w"
  using assms
  by (simp add: issues_opened_def issues_opened_with_def rateLimiter_consume_def Let_def
      context_repo_def)

text \<open>
  Claim C4, at the sample issue when the key \<open>octo/repo\<close> has consumed all 100 points of
  its window and the hosting API would accept every call: the handler of \<open>issues.opened\<close>
  posts no comment at all, so the rate-limit notice the claim describes is missing; the
  pipeline work is dropped, as the claim says.
\<close>

theorem issues_opened_exhausted_no_comment:
  "github (issues_opened accepting_env (sample_issue []) sample_repository
             (empty_world\<lparr>limiter := [''octo/repo'' \<mapsto> 100]\<rparr>)) = []
   \<and> db_trace (issues_opened accepting_env (sample_issue []) sample_repository
             (empty_world\<lparr>limiter := [''octo/repo'' \<mapsto> 100]\<rparr>)) = []"
  by (simp add: issues_opened_def issues_opened_with_def rateLimiter_consume_def Let_def
      context_repo_def accepting_env_def sample_repository_def empty_world_def)

lemma db_addIssueLog_keeps [simp]:
  "issues (snd (db_addIssueLog e k a d w)) = issues w"
  "github (snd (db_addIssueLog e k a d w)) = github w"
  "clock (snd (db_addIssueLog e k a d w)) = Suc (clock w)"
  by (simp_all add: db_addIssueLog_def)

lemma db_updateIssueStatus_status:
  "map_option status (issues (snd (db_updateIssueStatus e k st w)) j)
     = map_option status (issues w j)
   \<or> map_option status (issues (snd (db_updateIssueStatus e k st w)) j) = Some st"
  by (simp add: db_updateIssueStatus_def split: option.splits)

text \<open>
  Claim C3, as stated, at the merged sample pull request from \<open>autofix/issue-42\<close>, with
  the record of issue 42 stored as the pipeline stores it and an outside world that
  accepts every call: after the handler the stored record is not in status \<open>closed\<close>.
\<close>

theorem merged_autofix_pr_record_not_closed:
  "map_option status
     (issues (pull_request_event accepting_env PrClosed sample_pull_request sample_repository
                (empty_world\<lparr>issues := [''octo/repo#42'' \<mapsto> sample_record]\<rparr>))
        ''octo/repo#42'') \<noteq> Some Closed"
  by (simp add: pull_request_event_def startsWith_def sample_pull_request_def
      db_addIssueLog_def db_updateIssueStatus_def addAutoFixCompletedComment_def octokit_def
      tick_def accepting_env_def empty_world_def sample_record_def Let_def
      split: option.splits)

subsection \<open>Branch names and issue numbers\<close>

lemma digit_char_value: "n < 10 \<Longrightarrow> digit_value (''0123456789'' ! n) = Some n"
proof -
  assume "n < 10"
  then consider "n = 0" | "n = 1" | "n = 2" | "n = 3" | "n = 4" | "n = 5" | "n = 6"
    | "n = 7" | "n = 8" | "n = 9"
    by atomize_elim arith
  then show ?thesis
    by cases (simp_all add: digit_value_def)
qed

lemma digit_char_plain:
  "n < 10 \<Longrightarrow> ''0123456789'' ! n \<notin> set ''-+xX'' \<and> skip_space ((''0123456789'' ! n) # s) = None"
proof -
  assume "n < 10"
  then consider "n = 0" | "n = 1" | "n = 2" | "n = 3" | "n = 4" | "n = 5" | "n = 6"
    | "n = 7" | "n = 8" | "n = 9"
    by atomize_elim arith
  then show ?thesis
    by cases (simp_all add: skip_space_def js_whitespace_def)
qed

lemma decimal_digits:
  "decimal n \<noteq> [] \<and> list_all (is_digit 10) (decimal n) \<and> digits_value 10 (decimal n) = n"
proof (induction n rule: decimal.induct)
  case (1 n)
  show ?case
  proof (cases "n < 10")
    case True
    then show ?thesis
      using digit_char_value [of n]
      by (simp add: decimal.simps [of n] is_digit_def digits_value_def)
  next
    case False
    then have step: "decimal n = decimal (n div 10) @ [''0123456789'' ! (n mod 10)]"
      by (simp add: decimal.simps [of n])
    have d: "digit_value (''0123456789'' ! (n mod 10)) = Some (n mod 10)"
      by (rule digit_char_value) simp
    from "1.IH" [OF False] show ?thesis
      using d by (simp add: step is_digit_def digits_value_def)
  qed
qed

lemma decimal_head:
  "\<exists>d r. decimal n = (''0123456789'' ! d) # r \<and> d < 10"
proof (induction n rule: decimal.induct)
  case (1 n)
  show ?case
  proof (cases "n < 10")
    case True
    then show ?thesis by (auto simp: decimal.simps [of n])
  next
    case False
    then have step: "decimal n = decimal (n div 10) @ [''0123456789'' ! (n mod 10)]"
      by (simp add: decimal.simps [of n])
    from "1.IH" [OF False] show ?thesis
      by (auto simp: step)
  qed
qed

lemma parseInt_decimal: "parseInt (decimal n) = to_Number False n"
proof -
  obtain d r where h: "decimal n = (''0123456789'' ! d) # r" "d < 10"
    using decimal_head by blast
  have plain: "''0123456789'' ! d \<notin> set ''-+xX''" "skip_space (decimal n) = None"
    using digit_char_plain [OF h(2), of r] h(1) by simp_all
  have trim: "trim_start (decimal n) = decimal n"
    using plain(2) by (simp add: trim_start.simps [of "decimal n"])
  have all: "list_all (is_digit 10) (decimal n)" "decimal n \<noteq> []" "digits_value 10 (decimal n) = n"
    using decimal_digits by simp_all
  have tw: "takeWhile (is_digit 10) (decimal n) = decimal n"
    using all(1) by (simp add: list_all_iff)
  have nohex: "take 2 (decimal n) \<noteq> ''0x''" "take 2 (decimal n) \<noteq> ''0X''"
  proof -
    have "is_digit 10 c" if "c \<in> set (take 2 (decimal n))" for c
      using that all(1) by (auto simp: list_all_iff dest: in_set_takeD)
    moreover have "\<not> is_digit 10 CHR ''x''" "\<not> is_digit 10 CHR ''X''"
      by (simp_all add: is_digit_def digit_value_def)
    ultimately show "take 2 (decimal n) \<noteq> ''0x''" "take 2 (decimal n) \<noteq> ''0X''"
      by (metis list.set_intros(1,2))+
  qed
  have nosign: "take (Suc 0) (decimal n) \<noteq> ''-''" "take (Suc 0) (decimal n) \<noteq> ''+''"
    using plain(1) h(1) by auto
  show ?thesis
    by (simp add: parseInt_def Let_def trim nosign nohex tw all(2,3))
qed

text \<open>
  Below \<open>2 ^ 53\<close> every natural number is its own binary64 value, so it is printed with
  all its digits.
\<close>

lemma bit_length_bounds: "0 < n \<Longrightarrow> 2 ^ (bit_length n - 1) \<le> n \<and> n < 2 ^ bit_length n"
proof (induction n rule: bit_length.induct)
  case (1 n)
  show ?case
  proof (cases "n div 2 = 0")
    case True
    with 1 have "n = 1" by (simp add: div_eq_0_iff) 
    then show ?thesis by (simp add: bit_length.simps)
  next
    case False
    then have pos: "0 < n div 2" by simp
    from "1.IH" [OF _ pos] "1.prems"
    have ih: "2 ^ (bit_length (n div 2) - 1) \<le> n div 2" "n div 2 < 2 ^ bit_length (n div 2)"
      by simp_all
    have bl: "bit_length n = Suc (bit_length (n div 2))"
      using "1.prems" by (simp add: bit_length.simps [of n])
    have pos_bl: "0 < bit_length (n div 2)"
      using pos by (simp add: bit_length.simps [of "n div 2"])
    then have "(2::nat) ^ bit_length (n div 2) = 2 * 2 ^ (bit_length (n div 2) - 1)"
      by (cases "bit_length (n div 2)") simp_all
    with ih(1) have "2 ^ bit_length (n div 2) \<le> 2 * (n div 2)"
      by simp
    moreover have "2 * (n div 2) \<le> n" "n < 2 * (n div 2) + 2"
      by presburger+
    ultimately show ?thesis
      using ih(2) by (simp add: bl)
  qed
qed

lemma round_binary64_large:
  assumes "2 ^ 53 \<le> m" and "round_binary64 m = Some v"
  shows "2 ^ 53 \<le> v"
proof -
  define e where "e = bit_length m - 53"
  define q where "q = m div 2 ^ e"
  define q' where "q' = (if 2 * (m mod 2 ^ e) > 2 ^ e \<or> (2 * (m mod 2 ^ e) = 2 ^ e \<and> odd q) then q + 1 else q)"
  have pos: "0 < m" using assms(1) by (simp add: order.strict_trans2 [of 0 "2 ^ 53"])
  from bit_length_bounds [OF pos]
  have lo: "2 ^ (bit_length m - 1) \<le> m" and hi: "m < 2 ^ bit_length m" by simp_all
  have bl: "54 \<le> bit_length m"
  proof (rule ccontr)
    assume "\<not> 54 \<le> bit_length m"
    then have "bit_length m \<le> 53" by simp
    then have "(2::nat) ^ bit_length m \<le> 2 ^ 53"
      by (intro power_increasing) simp_all
    with hi assms(1) show False by linarith
  qed
  have split: "bit_length m - 1 = 52 + e"
    using bl by (simp add: e_def)
  have "(2::nat) ^ (bit_length m - 1) = 2 ^ 52 * 2 ^ e"
    unfolding split by (rule power_add)
  with lo have "2 ^ 52 * 2 ^ e \<le> m"
    by simp
  then have "2 ^ 52 \<le> q"
    by (simp add: q_def less_eq_div_iff_mult_less_eq)
  then have q'_lo: "2 ^ 52 \<le> q'"
    by (simp add: q'_def)
  have "1 \<le> e" using bl by (simp add: e_def)
  then have "(2::nat) ^ 1 \<le> 2 ^ e"
    by (intro power_increasing) simp_all
  then have "(2::nat) \<le> 2 ^ e" by simp
  with q'_lo have "2 ^ 52 * 2 \<le> q' * 2 ^ e"
    by (rule mult_mono) simp_all
  then have big: "2 ^ 53 \<le> q' * 2 ^ e" by simp
  have "\<not> m < 2 ^ 53"
    using assms(1) by simp
  then have "round_binary64 m = (if q' * 2 ^ e < 2 ^ 1024 then Some (q' * 2 ^ e) else None)"
    by (simp only: round_binary64_def Let_def e_def q_def q'_def if_False)
  with assms(2) have "v = q' * 2 ^ e"
    by (cases "q' * 2 ^ e < 2 ^ 1024") simp_all
  with big show ?thesis by simp
qed

lemma round_binary64_small:
  assumes "v < 2 ^ 53" and "round_binary64 m = Some v"
  shows "m = v"
proof (cases "m < 2 ^ 53")
  case True
  with assms(2) show ?thesis by (simp add: round_binary64_def)
next
  case False
  then have "2 ^ 53 \<le> m" by simp
  from round_binary64_large [OF this assms(2)] assms(1) show ?thesis by simp
qed

lemma closest_small:
  assumes "v < 2 ^ 53" and "closest v p = Some c"
  shows "c = v"
proof -
  have "round_binary64 c = Some v"
    using assms(2) by (simp add: closest_def Let_def split: if_splits)
  from round_binary64_small [OF assms(1) this] show ?thesis .
qed

lemma shortest_small:
  assumes "v < 2 ^ 53"
  shows "shortest v k = v"
proof (induction k)
  case 0
  show ?case by simp
next
  case (Suc k)
  show ?case
  proof (cases "closest v (10 ^ Suc k)")
    case None
    with Suc show ?thesis by simp
  next
    case (Some c)
    from closest_small [OF assms Some] have "c = v" .
    with Some show ?thesis by simp
  qed
qed

lemma decimal_length: "n < 10 ^ k \<Longrightarrow> 0 < k \<Longrightarrow> length (decimal n) \<le> k"
proof (induction n arbitrary: k rule: decimal.induct)
  case (1 n)
  show ?case
  proof (cases "n < 10")
    case True
    with "1.prems" show ?thesis by (simp add: decimal.simps [of n])
  next
    case False
    then have step: "decimal n = decimal (n div 10) @ [''0123456789'' ! (n mod 10)]"
      by (simp add: decimal.simps [of n])
    obtain j where k: "k = Suc j" using "1.prems"(2) by (cases k) simp_all
    have "0 < j"
    proof (rule ccontr)
      assume "\<not> 0 < j"
      with k "1.prems"(1) False show False by simp
    qed
    moreover have "n div 10 < 10 ^ j"
      using "1.prems"(1) by (simp add: k less_mult_imp_div_less mult.commute)
    ultimately have "length (decimal (n div 10)) \<le> j"
      using "1.IH" [OF False] by simp
    then show ?thesis by (simp add: step k)
  qed
qed

lemma nat_toString_small: "v < 2 ^ 53 \<Longrightarrow> nat_toString v = decimal v"
proof -
  assume v: "v < 2 ^ 53"
  have "v < 10 ^ 21" using v by simp
  then have "length (decimal v) \<le> 21"
    by (rule decimal_length) simp
  then show ?thesis
    by (simp add: nat_toString_def shortest_small [OF v] Let_def)
qed

text \<open>
  The branch that \<open>applyAutoFix\<close> opens for issue \<open>n\<close> is recognised by the pull-request
  handler, and the issue number it reads back from the branch name is \<open>n\<close>, as long as \<open>n\<close>
  is below \<open>2 ^ 53\<close>, where every integer is a binary64 value.
\<close>

lemma autofix_branch_issue_number:
  "n < 2 ^ 53 \<Longrightarrow>
   startsWith (''autofix/issue-'' @ int_to_string (int n)) ''autofix/issue-''
   \<and> parseInt (replace_first ''autofix/issue-'' []
                 (''autofix/issue-'' @ int_to_string (int n))) = IntVal (int n)"
  by (simp add: startsWith_def int_to_string_def nat_toString_small parseInt_decimal
      to_Number_def round_binary64_def)

text \<open>
  Above \<open>2 ^ 53\<close> the number read from a branch name is the nearest binary64 value, and
  from \<open>1e21\<close> on a template literal prints a number with an exponent.
\<close>

lemma parseInt_rounds_to_binary64:
  "parseInt ''9007199254740993'' = IntVal 9007199254740992"
proof -
  have b: "bit_length 9007199254740993 = 54"
    by (simp add: bit_length.simps)
  show ?thesis
    by (simp add: parseInt_def trim_start.simps skip_space_def js_whitespace_def
        is_digit_def digit_value_def digits_value_def to_Number_def round_binary64_def
        b Let_def)
qed

lemma jsint_to_string_exponent:
  "jsint_to_string (IntVal 1000000000000000000000) = ''1e+21''"
proof -
  have d: "decimal 1000000000000000000000 = ''1000000000000000000000''" "decimal 21 = ''21''"
    by (simp_all add: decimal.simps)
  have b: "bit_length 1000000000000000000000 = 70" "bit_length 2000000000000000000000 = 71"
    by (simp_all add: bit_length.simps)
  have c: "closest 1000000000000000000000 (10 ^ Suc 20) = Some 1000000000000000000000"
    by (simp add: closest_def round_binary64_def b Let_def)
  have "shortest 1000000000000000000000 (Suc 20) = 1000000000000000000000"
    unfolding shortest.simps c by simp
  then have s: "shortest 1000000000000000000000 21 = 1000000000000000000000"
    by simp
  have k: "length (decimal 1000000000000000000000) - 1 = 21"
    by (simp add: d)
  have "nat_toString 1000000000000000000000 = ''1e+21''"
    unfolding nat_toString_def Let_def k s by (simp add: d)
  then show ?thesis
    by (simp add: jsint_to_string_def int_to_string_def)
qed

text \<open>
  Claim C3, amended. For a closed and merged pull request whose head branch starts with
  \<open>autofix/issue-\<close>, let \<open>N\<close> be the number that \<open>parseInt\<close> reads from the rest of the branch
  name (a binary64 value, so digits beyond \<open>2 ^ 53\<close> are rounded), and let the record id be
  the one the handler builds, \<open>undefined#N\<close>. The handler takes four steps in this order,
  each only when the call before it was accepted: an audit-log entry, one status update
  of the record with that id, to \<open>fixed\<close>, the completion comment on issue \<open>N\<close>, and the
  closing of issue \<open>N\<close> on the hosting platform.

  \<^item> When the log entry is refused, nothing is stored and nothing is sent.
  \<^item> When the log entry is accepted and the status update refused, only the log entry is
    stored and nothing is sent.
  \<^item> When both are accepted, the database received exactly the log entry and the update
    to \<open>fixed\<close>; the table differs at most in the row with the handler's id, which, when
    it exists, has status \<open>fixed\<close> and a new update time; and the hosting API received
    the completion comment when it accepted it, followed by the closing of the issue
    when it accepted that too, and nothing else.
  \<^item> In every case each stored record keeps its status or comes to \<open>fixed\<close>; none is set
    to \<open>closed\<close>.
\<close>

theorem merged_autofix_pr:
  fixes e :: env and pr :: PullRequest and rp :: GitHubRepository and w :: world
  defines "N \<equiv> parseInt (replace_first ''autofix/issue-'' [] (head_ref pr))"
  defines "issueId \<equiv> ''undefined#'' @ jsint_to_string N"
  defines "log_entry \<equiv>
     InsertLog issueId ''autofix_pr_closed'' (PrDetails (pr_number pr) True (html_url pr))"
  defines "to_fixed \<equiv> UpdateStatus issueId Fixed"
  defines "completion \<equiv> CreateComment N (AutoFixCompletedComment (pr_number pr) (head_ref pr))"
  defines "closing \<equiv> CloseIssue N"
  defines "w' \<equiv> pull_request_event e PrClosed pr rp w"
  assumes "startsWith (head_ref pr) ''autofix/issue-''" and "merged pr"
  shows "(\<not> db_accepts e (clock w) (DbWrite log_entry) \<longrightarrow>
            issues w' = issues w \<and> db_trace w' = db_trace w \<and> github w' = github w)
       \<and> (db_accepts e (clock w) (DbWrite log_entry)
            \<and> \<not> db_accepts e (clock w + 1) (DbWrite to_fixed) \<longrightarrow>
            issues w' = issues w \<and> db_trace w' = db_trace w @ [log_entry]
            \<and> github w' = github w)
       \<and> (db_accepts e (clock w) (DbWrite log_entry)
            \<and> db_accepts e (clock w + 1) (DbWrite to_fixed) \<longrightarrow>
            db_trace w' = db_trace w @ [log_entry, to_fixed]
            \<and> issues w' =
                 (case issues w issueId of
                    None \<Rightarrow> issues w
                  | Some r \<Rightarrow> (issues w)(issueId \<mapsto> r\<lparr>status := Fixed, updatedAt := now e\<rparr>))
            \<and> github w' = github w @
                 (if gh_accepts e (clock w + 2) completion
                  then completion # (if gh_accepts e (clock w + 3) closing then [closing] else [])
                  else []))
       \<and> (\<forall>k. map_option status (issues w' k) = map_option status (issues w k)
                \<or> map_option status (issues w' k) = Some Fixed)"
proof -
  have run: "w' =
     (case db_addIssueLog e issueId ''autofix_pr_closed''
             (PrDetails (pr_number pr) True (html_url pr)) w of
        (False, w1) \<Rightarrow> w1
      | (True, w1) \<Rightarrow>
          (case db_updateIssueStatus e issueId Fixed w1 of
             (False, w2) \<Rightarrow> w2
           | (True, w2) \<Rightarrow> addAutoFixCompletedComment e N pr w2))"
    using assms(8,9)
    by (simp add: w'_def issueId_def N_def pull_request_event_def pr_action_name_def
        repo_params_full_name_def Let_def split: prod.splits bool.splits)
  have refused: "issues w' = issues w \<and> db_trace w' = db_trace w \<and> github w' = github w"
    if "\<not> db_accepts e (clock w) (DbWrite log_entry)"
    using that by (simp add: run log_entry_def db_addIssueLog_def tick_def)
  have logged: "issues w' = issues w \<and> db_trace w' = db_trace w @ [log_entry]
      \<and> github w' = github w"
    if "db_accepts e (clock w) (DbWrite log_entry)"
      and "\<not> db_accepts e (clock w + 1) (DbWrite to_fixed)"
    using that
    by (simp add: run log_entry_def to_fixed_def db_addIssueLog_def
        db_updateIssueStatus_def tick_def)
  have updated: "db_trace w' = db_trace w @ [log_entry, to_fixed]
      \<and> issues w' =
           (case issues w issueId of
              None \<Rightarrow> issues w
            | Some r \<Rightarrow> (issues w)(issueId \<mapsto> r\<lparr>status := Fixed, updatedAt := now e\<rparr>))
      \<and> github w' = github w @
           (if gh_accepts e (clock w + 2) completion
            then completion # (if gh_accepts e (clock w + 3) closing then [closing] else [])
            else [])"
    if "db_accepts e (clock w) (DbWrite log_entry)"
      and "db_accepts e (clock w + 1) (DbWrite to_fixed)"
    using that
    by (simp add: run log_entry_def to_fixed_def completion_def closing_def
        db_addIssueLog_def db_updateIssueStatus_def addAutoFixCompletedComment_def
        octokit_def tick_def eval_nat_numeral split: option.splits)
  have kept: "map_option status (issues w' k) = map_option status (issues w k)
      \<or> map_option status (issues w' k) = Some Fixed" for k
    by (simp add: run db_addIssueLog_def db_updateIssueStatus_def
        addAutoFixCompletedComment_def octokit_def tick_def split: option.splits)
  show ?thesis
    using refused logged updated kept by blast
qed

theorem merged_autofix_pr_witness:
  "startsWith (head_ref sample_pull_request) ''autofix/issue-''
   \<and> merged sample_pull_request
   \<and> parseInt (replace_first ''autofix/issue-'' [] (head_ref sample_pull_request)) = IntVal 42
   \<and> github (pull_request_event accepting_env PrClosed sample_pull_request sample_repository
               empty_world)
     = [CreateComment (IntVal 42) (AutoFixCompletedComment 9 ''autofix/issue-42''),
        CloseIssue (IntVal 42)]
   \<and> db_trace (pull_request_event accepting_env PrClosed sample_pull_request sample_repository
                 empty_world)
     = [InsertLog ''undefined#42'' ''autofix_pr_closed''
          (PrDetails 9 True ''https://github.com/octo/repo/pull/9''),
        UpdateStatus ''undefined#42'' Fixed]
   \<and> github (pull_request_event (accepting_env\<lparr>db_accepts := \<lambda>n c. False\<rparr>) PrClosed
               sample_pull_request sample_repository empty_world) = []
   \<and> db_trace (pull_request_event (accepting_env\<lparr>db_accepts := \<lambda>n c. False\<rparr>) PrClosed
                 sample_pull_request sample_repository empty_world) = []
   \<and> github (pull_request_event (accepting_env\<lparr>db_accepts := \<lambda>n c. n = 0\<rparr>) PrClosed
               sample_pull_request sample_repository empty_world) = []
   \<and> db_trace (pull_request_event (accepting_env\<lparr>db_accepts := \<lambda>n c. n = 0\<rparr>) PrClosed
                 sample_pull_request sample_repository empty_world)
     = [InsertLog ''undefined#42'' ''autofix_pr_closed''
          (PrDetails 9 True ''https://github.com/octo/repo/pull/9'')]
   \<and> github (pull_request_event (accepting_env\<lparr>gh_accepts := \<lambda>n c. n = 2\<rparr>) PrClosed
               sample_pull_request sample_repository empty_world)
     = [CreateComment (IntVal 42) (AutoFixCompletedComment 9 ''autofix/issue-42'')]"
proof -
  have s: "startsWith (head_ref sample_pull_request) ''autofix/issue-''"
    by (simp add: startsWith_def sample_pull_request_def)
  have m: "merged sample_pull_request"
    by (simp add: sample_pull_request_def)
  have n: "parseInt ''42'' = IntVal 42"
    by (simp add: parseInt_def trim_start.simps skip_space_def js_whitespace_def
        is_digit_def digit_value_def digits_value_def to_Number_def round_binary64_def
        Let_def)
  have d: "decimal 42 = ''42''"
    by (simp add: decimal.simps)
  have t: "jsint_to_string (IntVal 42) = ''42''"
    by (simp add: jsint_to_string_def int_to_string_def nat_toString_small d)
  note run = merged_autofix_pr [where pr = sample_pull_request and rp = sample_repository
      and w = empty_world, OF s m]
  show ?thesis
    using s m run [where e = accepting_env]
      run [where e = "accepting_env\<lparr>db_accepts := \<lambda>n c. False\<rparr>"]
      run [where e = "accepting_env\<lparr>db_accepts := \<lambda>n c. n = 0\<rparr>"]
      run [where e = "accepting_env\<lparr>gh_accepts := \<lambda>n c. n = 2\<rparr>"]
    by (simp add: n t accepting_env_def empty_world_def sample_pull_request_def)
qed

section \<open>Properties of the Fix Applicator\<close>

lemma new_calls_append: "github w' = github w @ cs \<Longrightarrow> new_calls w w' = cs"
  by (simp add: new_calls_def)

lemma applyFileChange_calls:
  "\<exists>cs. github (snd (applyFileChange e fc b w)) = github w @ cs
        \<and> list_all is_file_write cs
        \<and> (fst (applyFileChange e fc b w) \<longleftrightarrow> cs \<noteq> [])"
  by (cases "action fc")
     (auto simp: applyFileChange_def createFile_def octokit_def tick_def Let_def
           split: option.splits)

lemma applyFiles_calls:
  "\<exists>cs. github (snd (applyFiles e fcs b w)) = github w @ cs
        \<and> list_all is_file_write cs
        \<and> (fst (applyFiles e fcs b w) = [] \<longleftrightarrow> cs = [])
        \<and> set (fst (applyFiles e fcs b w)) \<subseteq> path ` set fcs"
proof (induction fcs arbitrary: w)
  case Nil
  then show ?case by simp
next
  case (Cons fc fcs)
  obtain ok w1 where one: "applyFileChange e fc b w = (ok, w1)"
    by (cases "applyFileChange e fc b w")
  obtain changed w2 where rest: "applyFiles e fcs b w1 = (changed, w2)"
    by (cases "applyFiles e fcs b w1")
  from applyFileChange_calls [of e fc b w] one
  obtain cs1 where cs1: "github w1 = github w @ cs1" "list_all is_file_write cs1"
      "ok \<longleftrightarrow> cs1 \<noteq> []"
    by auto
  from Cons.IH [of w1] rest
  obtain cs2 where cs2: "github w2 = github w1 @ cs2" "list_all is_file_write cs2"
      "changed = [] \<longleftrightarrow> cs2 = []" "set changed \<subseteq> path ` set fcs"
    by auto
  have "github w2 = github w @ (cs1 @ cs2)" "list_all is_file_write (cs1 @ cs2)"
    using cs1 cs2 by simp_all
  moreover have "(if ok then [path fc] else []) @ changed = [] \<longleftrightarrow> cs1 @ cs2 = []"
    using cs1(3) cs2(3) by simp
  moreover have "set ((if ok then [path fc] else []) @ changed) \<subseteq> path ` set (fc # fcs)"
    using cs2(4) by auto
  ultimately show ?case
    using one rest by auto
qed

lemma createBranch_calls:
  "\<exists>cs. github (createBranch e bn base w) = github w @ cs
        \<and> (\<forall>c \<in> set cs. \<not> is_file_write c \<and> \<not> is_pull c)"
  by (auto simp: createBranch_def octokit_def tick_def split: option.splits)

lemma after_pull_calls:
  "\<exists>cs. github (addIssueComment e iss n fx (addPRLabels e n fx w)) = github w @ cs
        \<and> (\<forall>c \<in> set cs. \<not> is_file_write c \<and> \<not> is_pull c)"
  by (auto simp: addIssueComment_def addPRLabels_def octokit_def tick_def)

lemma file_write_not_pull: "list_all is_file_write cs \<Longrightarrow> c \<in> set cs \<Longrightarrow> \<not> is_pull c"
  by (cases c) (auto simp: list_all_iff)

lemma applyAutoFix_run:
  assumes "isAutoFixSafe (config e) fx an"
    and "default_branch e (clock w) = Some base"
    and "applyFiles e (files fx) (''autofix/issue-'' @ int_to_string (number iss))
           (createBranch e (''autofix/issue-'' @ int_to_string (number iss)) base (tick w))
         = (changed, w3)"
  shows "applyAutoFix e iss fx an w =
     (if changed = [] then (False, w3)
      else if gh_accepts e (clock w3)
                (CreatePull (number iss) changed
                   (''autofix/issue-'' @ int_to_string (number iss)) base)
      then (True, addIssueComment e iss (pull_number e (clock w3)) fx
                    (addPRLabels e (pull_number e (clock w3)) fx
                       (tick (w3\<lparr>github := github w3 @
                          [CreatePull (number iss) changed
                             (''autofix/issue-'' @ int_to_string (number iss)) base]\<rparr>))))
      else (False, tick w3))"
  using assms
  by (simp add: applyAutoFix_def getDefaultBranch_def octokit_def Let_def)

text \<open>
  Claim C6. In every run of \<open>applyAutoFix\<close>: when no file edit was applied successfully
  (the hosting API accepted no write or deletion of a file; in particular when the edit
  set has no file edits), the result is failure and no pull request is opened; a pull
  request is only ever opened with a changed-file list that is not empty and consists of
  paths of the edit set; and success is reported only when a pull request was opened.
\<close>

theorem no_changed_file_no_pull_request:
  "(\<not> list_ex is_file_write (new_calls w (snd (applyAutoFix e iss fx an w))) \<longrightarrow>
      fst (applyAutoFix e iss fx an w) = False
    \<and> \<not> list_ex is_pull (new_calls w (snd (applyAutoFix e iss fx an w))))
 \<and> (files fx = [] \<longrightarrow>
      fst (applyAutoFix e iss fx an w) = False
    \<and> \<not> list_ex is_pull (new_calls w (snd (applyAutoFix e iss fx an w))))
 \<and> (\<forall>n changed h b.
      CreatePull n changed h b \<in> set (new_calls w (snd (applyAutoFix e iss fx an w))) \<longrightarrow>
      changed \<noteq> [] \<and> set changed \<subseteq> path ` set (files fx))
 \<and> (fst (applyAutoFix e iss fx an w) \<longrightarrow>
      list_ex is_pull (new_calls w (snd (applyAutoFix e iss fx an w))))"
proof -
  let ?bn = "''autofix/issue-'' @ int_to_string (number iss)"
  let ?r = "applyAutoFix e iss fx an w"
  let ?P = "\<lambda>ok new.
      (\<not> list_ex is_file_write new \<longrightarrow> ok = False \<and> \<not> list_ex is_pull new)
    \<and> (files fx = [] \<longrightarrow> ok = False \<and> \<not> list_ex is_pull new)
    \<and> (\<forall>n changed h b. CreatePull n changed h b \<in> set new \<longrightarrow>
          changed \<noteq> [] \<and> set changed \<subseteq> path ` set (files fx))
    \<and> (ok \<longrightarrow> list_ex is_pull new)"
  have goal: "?P (fst ?r) (new_calls w (snd ?r))"
  proof (cases "isAutoFixSafe (config e) fx an \<and> default_branch e (clock w) \<noteq> None")
    case False
    then have "fst ?r = False \<and> github (snd ?r) = github w @ []"
      by (auto simp: applyAutoFix_def getDefaultBranch_def)
    then have "fst ?r = False" "new_calls w (snd ?r) = []"
      using new_calls_append by blast+
    then show ?thesis by simp
  next
    case True
    then obtain base where safe: "isAutoFixSafe (config e) fx an"
        and base: "default_branch e (clock w) = Some base"
      by auto
    let ?w2 = "createBranch e ?bn base (tick w)"
    obtain changed w3 where loop: "applyFiles e (files fx) ?bn ?w2 = (changed, w3)"
      by (cases "applyFiles e (files fx) ?bn ?w2")
    note run = applyAutoFix_run [OF safe base loop]
    from createBranch_calls [of e ?bn base "tick w"]
    obtain cs1 where cs1: "github ?w2 = github w @ cs1"
        "\<forall>c \<in> set cs1. \<not> is_file_write c \<and> \<not> is_pull c"
      by auto
    from applyFiles_calls [of e "files fx" ?bn ?w2] loop
    obtain cs2 where cs2: "github w3 = github ?w2 @ cs2" "list_all is_file_write cs2"
        "changed = [] \<longleftrightarrow> cs2 = []" "set changed \<subseteq> path ` set (files fx)"
      by auto
    have cs2_pull: "\<forall>c \<in> set cs2. \<not> is_pull c"
      using cs2(2) file_write_not_pull by blast
    have nonempty: "files fx \<noteq> []" if "changed \<noteq> []"
      using that cs2(4) by auto
    let ?pull = "CreatePull (number iss) changed ?bn base"
    consider (none) "changed = []"
      | (refused) "changed \<noteq> []" "\<not> gh_accepts e (clock w3) ?pull"
      | (opened) "changed \<noteq> []" "gh_accepts e (clock w3) ?pull"
      by blast
    then show ?thesis
    proof cases
      case none
      then have "fst ?r = False" "github (snd ?r) = github w @ cs1"
        using run cs1(1) cs2(1) cs2(3) by simp_all
      then have "fst ?r = False" "new_calls w (snd ?r) = cs1"
        using new_calls_append by blast+
      then show ?thesis
        using cs1(2) by (auto simp: list_ex_iff)
    next
      case refused
      then have "fst ?r = False" "github (snd ?r) = github w @ (cs1 @ cs2)"
        using run cs1(1) cs2(1) by simp_all
      then have r: "fst ?r = False" "new_calls w (snd ?r) = cs1 @ cs2"
        using new_calls_append by blast+
      have "list_ex is_file_write (cs1 @ cs2)"
        using refused(1) cs2(2,3) by (cases cs2) (auto simp: list_ex_iff)
      then show ?thesis
        using r cs1(2) cs2_pull nonempty [OF refused(1)] by (auto simp: list_ex_iff)
    next
      case opened
      let ?w4 = "tick (w3\<lparr>github := github w3 @ [?pull]\<rparr>)"
      from after_pull_calls [of e iss "pull_number e (clock w3)" fx ?w4]
      obtain cs3 where cs3:
          "github (addIssueComment e iss (pull_number e (clock w3)) fx
                     (addPRLabels e (pull_number e (clock w3)) fx ?w4)) = github ?w4 @ cs3"
          "\<forall>c \<in> set cs3. \<not> is_file_write c \<and> \<not> is_pull c"
        by auto
      have "fst ?r = True" "github (snd ?r) = github w @ (cs1 @ cs2 @ ?pull # cs3)"
        using run opened cs1(1) cs2(1) cs3(1) by simp_all
      then have r: "fst ?r = True" "new_calls w (snd ?r) = cs1 @ cs2 @ ?pull # cs3"
        using new_calls_append by blast+
      have fw: "list_ex is_file_write (cs1 @ cs2 @ ?pull # cs3)"
        using opened(1) cs2(2,3) by (cases cs2) (auto simp: list_ex_iff)
      have pulls: "changed' = changed"
        if "CreatePull n changed' h b' \<in> set (cs1 @ cs2 @ ?pull # cs3)" for n changed' h b'
        using that cs1(2) cs2_pull cs3(2) by auto
      have c3: "changed' \<noteq> [] \<and> set changed' \<subseteq> path ` set (files fx)"
        if "CreatePull n changed' h b' \<in> set (cs1 @ cs2 @ ?pull # cs3)" for n changed' h b'
        using pulls [OF that] opened(1) cs2(4) by simp
      have c4: "list_ex is_pull (cs1 @ cs2 @ ?pull # cs3)"
        by (simp add: list_ex_iff)
      show ?thesis
        unfolding r using fw nonempty [OF opened(1)] c3 c4 by blast
    qed
  qed
  then show ?thesis by blast
qed

theorem no_changed_file_no_pull_request_witness:
  "files \<lparr>ftype = Documentation, description = ''nothing to change'', files = [],
          commands = None, confidence = Fin (9/10), riskLevel = Low, testRequired = False\<rparr> = []
   \<and> fst (applyAutoFix accepting_env (sample_issue [])
        \<lparr>ftype = Documentation, description = ''nothing to change'', files = [],
          commands = None, confidence = Fin (9/10), riskLevel = Low, testRequired = False\<rparr>
        fallbackAnalysis empty_world) = False
   \<and> \<not> list_ex is_pull (new_calls empty_world (snd (applyAutoFix accepting_env (sample_issue [])
        \<lparr>ftype = Documentation, description = ''nothing to change'', files = [],
          commands = None, confidence = Fin (9/10), riskLevel = Low, testRequired = False\<rparr>
        fallbackAnalysis empty_world)))"
  using no_changed_file_no_pull_request [of empty_world accepting_env "sample_issue []"
      "\<lparr>ftype = Documentation, description = ''nothing to change'', files = [],
          commands = None, confidence = Fin (9/10), riskLevel = Low, testRequired = False\<rparr>"
      fallbackAnalysis]
  by simp

section \<open>Properties of the records the pipeline stores\<close>

lemma new_writes_append: "db_trace w' = db_trace w @ ws \<Longrightarrow> new_writes w w' = ws"
  by (simp add: new_writes_def)

lemma applyFileChange_db [simp]:
  "issues (snd (applyFileChange e fc b w)) = issues w"
  "db_trace (snd (applyFileChange e fc b w)) = db_trace w"
  by (cases "action fc";
      simp add: applyFileChange_def createFile_def Let_def split: option.splits)+

lemma applyFiles_db [simp]:
  "issues (snd (applyFiles e fcs b w)) = issues w"
  "db_trace (snd (applyFiles e fcs b w)) = db_trace w"
proof (induction fcs arbitrary: w)
  case Nil
  { case 1 show ?case by simp }
  { case 2 show ?case by simp }
next
  case (Cons fc fcs)
  { case 1
    show ?case
      using Cons.IH(1) [of "snd (applyFileChange e fc b w)"]
      by (simp split: prod.splits) (metis applyFileChange_db(1) snd_conv) }
  { case 2
    show ?case
      using Cons.IH(2) [of "snd (applyFileChange e fc b w)"]
      by (simp split: prod.splits) (metis applyFileChange_db(2) snd_conv) }
qed

lemma createBranch_db [simp]:
  "issues (createBranch e bn base w) = issues w"
  "db_trace (createBranch e bn base w) = db_trace w"
  by (simp_all add: createBranch_def split: option.splits)

lemma applyAutoFix_db [simp]:
  "issues (snd (applyAutoFix e iss fx an w)) = issues w"
  "db_trace (snd (applyAutoFix e iss fx an w)) = db_trace w"
proof -
  let ?bn = "''autofix/issue-'' @ int_to_string (number iss)"
  have "issues (snd (applyAutoFix e iss fx an w)) = issues w
      \<and> db_trace (snd (applyAutoFix e iss fx an w)) = db_trace w"
  proof (cases "isAutoFixSafe (config e) fx an \<and> default_branch e (clock w) \<noteq> None")
    case False
    then show ?thesis
      by (auto simp: applyAutoFix_def getDefaultBranch_def)
  next
    case True
    then obtain base where safe: "isAutoFixSafe (config e) fx an"
        and base: "default_branch e (clock w) = Some base"
      by auto
    obtain changed w3 where loop:
        "applyFiles e (files fx) ?bn (createBranch e ?bn base (tick w)) = (changed, w3)"
      by (cases "applyFiles e (files fx) ?bn (createBranch e ?bn base (tick w))")
    have "w3 = snd (applyFiles e (files fx) ?bn (createBranch e ?bn base (tick w)))"
      unfolding loop by simp
    then have w3: "issues w3 = issues w" "db_trace w3 = db_trace w"
      by simp_all
    show ?thesis
      by (simp add: applyAutoFix_run [OF safe base loop] w3 addIssueComment_def addPRLabels_def)
  qed
  then show "issues (snd (applyAutoFix e iss fx an w)) = issues w"
    and "db_trace (snd (applyAutoFix e iss fx an w)) = db_trace w"
    by simp_all
qed

text \<open>
  The first save: what it writes is a row in status \<open>analyzed\<close> under the issue's
  identity and a log entry; when it resolves, that row is stored.
\<close>

lemma saveIssueRecord_effect:
  "\<exists>ws. db_trace (snd (saveIssueRecord e iss rp an w)) = db_trace w @ ws
        \<and> list_all pipeline_write ws
        \<and> (\<forall>j. j \<noteq> generateIssueId iss rp \<longrightarrow>
               issues (snd (saveIssueRecord e iss rp an w)) j = issues w j)
        \<and> (issues (snd (saveIssueRecord e iss rp an w)) (generateIssueId iss rp)
             = issues w (generateIssueId iss rp)
           \<or> (\<exists>r. issues (snd (saveIssueRecord e iss rp an w)) (generateIssueId iss rp) = Some r
                \<and> status r = Analyzed))
        \<and> (fst (saveIssueRecord e iss rp an w) = Inr () \<longrightarrow>
             (\<exists>r. issues (snd (saveIssueRecord e iss rp an w)) (generateIssueId iss rp) = Some r
                \<and> record_id r = generateIssueId iss rp
                \<and> status r = Analyzed \<and> \<not> autoFixAttempted r))"
  by (simp add: saveIssueRecord_def db_saveIssueRecord_def db_addIssueLog_def Let_def)

text \<open>
  Storing the solution writes the row back as it was read, with the solution added: on
  a row in status \<open>analyzed\<close> it leaves a row in status \<open>analyzed\<close>.
\<close>

lemma generateSolution_effect:
  assumes "issues w k = Some r" "record_id r = k" "status r = Analyzed" "\<not> autoFixAttempted r"
    and "k = generateIssueId iss rp"
  shows "\<exists>ws. db_trace (snd (generateSolution e iss rp an w)) = db_trace w @ ws
        \<and> list_all pipeline_write ws
        \<and> (\<forall>j. j \<noteq> k \<longrightarrow> issues (snd (generateSolution e iss rp an w)) j = issues w j)
        \<and> (\<exists>r'. issues (snd (generateSolution e iss rp an w)) k = Some r'
               \<and> status r' = Analyzed)"
  using assms
  by (auto simp: generateSolution_def db_getIssueRecord_def db_saveIssueRecord_def Let_def
      split: option.splits)

text \<open>
  The auto-fix attempt records itself on the row and writes a log entry; it leaves the
  status alone.
\<close>

lemma attemptAutoFix_effect:
  assumes "issues w k = Some r" "status r = Analyzed" "k = generateIssueId iss rp"
  shows "\<exists>ws. db_trace (attemptAutoFix e iss rp an w) = db_trace w @ ws
        \<and> list_all pipeline_write ws
        \<and> (\<forall>j. j \<noteq> k \<longrightarrow> issues (attemptAutoFix e iss rp an w) j = issues w j)
        \<and> (\<exists>r'. issues (attemptAutoFix e iss rp an w) k = Some r' \<and> status r' = Analyzed)"
proof (cases "generateAutoFix e iss an w")
  case (Pair fxo w1)
  then have w1: "issues w1 = issues w" "db_trace w1 = db_trace w"
    by (auto simp: generateAutoFix_def split: if_splits)
  show ?thesis
  proof (cases fxo)
    case None
    then show ?thesis
      using Pair w1 assms by (simp add: attemptAutoFix_def)
  next
    case (Some fx)
    obtain ok w2 where app: "applyAutoFix e iss fx an w1 = (ok, w2)"
      by (cases "applyAutoFix e iss fx an w1")
    have "w2 = snd (applyAutoFix e iss fx an w1)"
      by (simp add: app)
    then have w2: "issues w2 = issues w" "db_trace w2 = db_trace w"
      using w1 by simp_all
    show ?thesis
      using Pair Some app w2 assms
      by (simp add: attemptAutoFix_def db_recordAutoFixAttempt_def db_addIssueLog_def)
  qed
qed

lemma step_keeps_db [simp]:
  "issues (addProcessingLabel e iss w) = issues w"
  "db_trace (addProcessingLabel e iss w) = db_trace w"
  "issues (addAnalysisComment e iss an sol w) = issues w"
  "db_trace (addAnalysisComment e iss an sol w) = db_trace w"
  "issues (addErrorComment e iss err w) = issues w"
  "db_trace (addErrorComment e iss err w) = db_trace w"
  "issues (snd (analyzeIssue e iss rp w)) = issues w"
  "db_trace (snd (analyzeIssue e iss rp w)) = db_trace w"
  by (simp_all add: addProcessingLabel_def addAnalysisComment_def addErrorComment_def
      analyzeIssue_def split: option.splits)

lemma addAnalysisLabels_db [simp]:
  "issues (addAnalysisLabels e iss an w) = issues w"
  "db_trace (addAnalysisLabels e iss an w) = db_trace w"
  by (simp_all add: addAnalysisLabels_def octokit_def)

text \<open>
  The whole pipeline: the statements it runs are those of \<open>pipeline_write\<close>, and a row that
  differs from the one before the event is in status \<open>analyzed\<close>.
\<close>

lemma handleIssueOpened_effect:
  "\<exists>ws. db_trace (handleIssueOpened e iss rp w) = db_trace w @ ws
        \<and> list_all pipeline_write ws
        \<and> (\<forall>j. issues (handleIssueOpened e iss rp w) j = issues w j
               \<or> (\<exists>r. issues (handleIssueOpened e iss rp w) j = Some r \<and> status r = Analyzed))"
proof (cases "shouldProcessIssue iss")
  case False
  then show ?thesis by (simp add: handleIssueOpened_def)
next
  case True
  let ?k = "generateIssueId iss rp"
  let ?w1 = "addProcessingLabel e iss w"
  obtain ar w2 where an: "analyzeIssue e iss rp ?w1 = (ar, w2)"
    by (cases "analyzeIssue e iss rp ?w1")
  have "w2 = snd (analyzeIssue e iss rp ?w1)" by (simp add: an)
  then have w2: "issues w2 = issues w" "db_trace w2 = db_trace w"
    by simp_all
  show ?thesis
  proof (cases ar)
    case (Inl err)
    then show ?thesis
      using True an w2 by (simp add: handleIssueOpened_def)
  next
    case (Inr a)
    obtain sr w3 where sv: "saveIssueRecord e iss rp a w2 = (sr, w3)"
      by (cases "saveIssueRecord e iss rp a w2")
    from saveIssueRecord_effect [of e iss rp a w2] sv w2
    obtain ws1 where s1: "db_trace w3 = db_trace w @ ws1" "list_all pipeline_write ws1"
        "\<forall>j. j \<noteq> ?k \<longrightarrow> issues w3 j = issues w j"
        "issues w3 ?k = issues w ?k \<or> (\<exists>r. issues w3 ?k = Some r \<and> status r = Analyzed)"
        "sr = Inr () \<longrightarrow> (\<exists>r. issues w3 ?k = Some r \<and> record_id r = ?k
                              \<and> status r = Analyzed \<and> \<not> autoFixAttempted r)"
      by auto
    show ?thesis
    proof (cases sr)
      case (Inl err)
      then have "handleIssueOpened e iss rp w = addErrorComment e iss err w3"
        using True an \<open>ar = Inr a\<close> sv by (simp add: handleIssueOpened_def)
      then show ?thesis
        using s1(1-4) by (simp add: exI [of _ ws1]) metis
    next
      case (Inr u)
      then obtain r where r: "issues w3 ?k = Some r" "record_id r = ?k" "status r = Analyzed"
          "\<not> autoFixAttempted r"
        using s1(5) by auto
      let ?w4 = "addAnalysisLabels e iss a w3"
      obtain sol w5 where gs: "generateSolution e iss rp a ?w4 = (sol, w5)"
        by (cases "generateSolution e iss rp a ?w4")
      have r4: "issues ?w4 ?k = Some r" using r(1) by simp
      from generateSolution_effect [OF r4 r(2) r(3) r(4) refl, of e a] gs
      obtain ws2 r' where s2: "db_trace w5 = db_trace w3 @ ws2" "list_all pipeline_write ws2"
          "\<forall>j. j \<noteq> ?k \<longrightarrow> issues w5 j = issues w3 j"
          "issues w5 ?k = Some r'" "status r' = Analyzed"
        by auto
      let ?w6 = "addAnalysisComment e iss a sol w5"
      have run: "handleIssueOpened e iss rp w =
          (if autoFixable a \<and> autoFixEnabled (config e) then attemptAutoFix e iss rp a ?w6 else ?w6)"
        using True an \<open>ar = Inr a\<close> sv Inr gs by (simp add: handleIssueOpened_def Let_def)
      have r6: "issues ?w6 ?k = Some r'" using s2(4) by simp
      from attemptAutoFix_effect [OF r6 s2(5) refl, of e a]
      obtain ws3 r'' where s3: "db_trace (attemptAutoFix e iss rp a ?w6) = db_trace ?w6 @ ws3"
          "list_all pipeline_write ws3"
          "\<forall>j. j \<noteq> ?k \<longrightarrow> issues (attemptAutoFix e iss rp a ?w6) j = issues ?w6 j"
          "issues (attemptAutoFix e iss rp a ?w6) ?k = Some r''" "status r'' = Analyzed"
        by auto
      show ?thesis
      proof (cases "autoFixable a \<and> autoFixEnabled (config e)")
        case True
        have "db_trace (handleIssueOpened e iss rp w) = db_trace w @ (ws1 @ ws2 @ ws3)"
          using run True s1(1) s2(1) s3(1) by simp
        moreover have "list_all pipeline_write (ws1 @ ws2 @ ws3)"
          using s1(2) s2(2) s3(2) by simp
        moreover have "issues (handleIssueOpened e iss rp w) j = issues w j
            \<or> (\<exists>r. issues (handleIssueOpened e iss rp w) j = Some r \<and> status r = Analyzed)" for j
          using run True s1(3) s2(3) s3(3,4,5) by (cases "j = ?k") simp_all
        ultimately show ?thesis by blast
      next
        case False
        have "db_trace (handleIssueOpened e iss rp w) = db_trace w @ (ws1 @ ws2)"
          using run False s1(1) s2(1) by simp
        moreover have "list_all pipeline_write (ws1 @ ws2)"
          using s1(2) s2(2) by simp
        moreover have "issues (handleIssueOpened e iss rp w) j = issues w j
            \<or> (\<exists>r. issues (handleIssueOpened e iss rp w) j = Some r \<and> status r = Analyzed)" for j
          using run False s1(3) s2(3,4,5) by (cases "j = ?k") simp_all
        ultimately show ?thesis by blast
      qed
    qed
  qed
qed

text \<open>
  Claim C10. Every row the issue-opened pipeline writes to the store has status
  \<open>analyzed\<close> and \<open>autoFixAttempted\<close> false (the row it creates, and the same row written
  back with the solution); the pipeline never updates a status; and after the pipeline
  every stored row is the row that was there before the event or a row in status
  \<open>analyzed\<close>. So no row comes to be in status \<open>pending\<close> or \<open>analyzing\<close> through this
  handler.
\<close>

theorem pipeline_stores_analyzed_only:
  "(\<forall>r. SaveRecord r \<in> set (new_writes w (handleIssueOpened e iss rp w)) \<longrightarrow>
         status r = Analyzed \<and> autoFixAttempted r = False)
 \<and> (\<forall>k st. UpdateStatus k st \<notin> set (new_writes w (handleIssueOpened e iss rp w)))
 \<and> (\<forall>k. issues (handleIssueOpened e iss rp w) k = issues w k
        \<or> (\<exists>r. issues (handleIssueOpened e iss rp w) k = Some r \<and> status r = Analyzed
               \<and> status r \<noteq> Pending \<and> status r \<noteq> Analyzing))"
proof -
  from handleIssueOpened_effect [of e iss rp w]
  obtain ws where ws: "db_trace (handleIssueOpened e iss rp w) = db_trace w @ ws"
      "list_all pipeline_write ws"
      "\<forall>j. issues (handleIssueOpened e iss rp w) j = issues w j
           \<or> (\<exists>r. issues (handleIssueOpened e iss rp w) j = Some r \<and> status r = Analyzed)"
    by blast
  have new: "new_writes w (handleIssueOpened e iss rp w) = ws"
    using ws(1) by (rule new_writes_append)
  have saves: "status r = Analyzed \<and> autoFixAttempted r = False" if "SaveRecord r \<in> set ws" for r
    using ws(2) that by (auto simp: list_all_iff)
  have updates: "UpdateStatus k st \<notin> set ws" for k st
    using ws(2) by (auto simp: list_all_iff)
  have rows: "issues (handleIssueOpened e iss rp w) k = issues w k
        \<or> (\<exists>r. issues (handleIssueOpened e iss rp w) k = Some r \<and> status r = Analyzed
               \<and> status r \<noteq> Pending \<and> status r \<noteq> Analyzing)" for k
    using ws(3) [rule_format, of k] by auto
  show ?thesis
    unfolding new using saves updates rows by blast
qed

theorem pipeline_stores_analyzed_only_witness:
  "map_option status
     (issues (handleIssueOpened accepting_env (sample_issue []) sample_repository empty_world)
        ''octo/repo#42'') = Some Analyzed
   \<and> SaveRecord (sample_record\<lparr>updatedAt := ''2024-05-01T10:00:00.000Z''\<rparr>)
       \<in> set (new_writes empty_world
                (handleIssueOpened accepting_env (sample_issue []) sample_repository empty_world))
   \<and> status sample_record = Analyzed \<and> autoFixAttempted sample_record = False"
proof -
  have run: "db_trace (handleIssueOpened accepting_env (sample_issue []) sample_repository empty_world)
      = SaveRecord sample_record # drop 1 (db_trace (handleIssueOpened accepting_env (sample_issue [])
          sample_repository empty_world))
    \<and> map_option status
     (issues (handleIssueOpened accepting_env (sample_issue []) sample_repository empty_world)
        ''octo/repo#42'') = Some Analyzed"
    by (simp add: handleIssueOpened_def shouldProcessIssue_def generateIssueId_def saveIssueRecord_def
        analyzeIssue_def addProcessingLabel_def addAnalysisLabels_def addAnalysisComment_def
        generateSolution_def db_saveIssueRecord_def db_addIssueLog_def db_getIssueRecord_def
        octokit_def tick_def accepting_env_def sample_config_def empty_world_def
        parseAnalysisResponse_def fallbackAnalysis_def sample_record_def Let_def
        sample_issue_def sample_repository_def int_to_string_def nat_toString_small
        decimal.simps)
  then have "SaveRecord sample_record
       \<in> set (new_writes empty_world
                (handleIssueOpened accepting_env (sample_issue []) sample_repository empty_world))"
    by (simp add: new_writes_def empty_world_def) (metis list.set_intros(1))
  then show ?thesis
    using run
      pipeline_stores_analyzed_only [of empty_world accepting_env "sample_issue []" sample_repository]
    by (simp add: sample_record_def)
qed

end
